theory Spec2Isabelle
  imports Complex_Main "HOL-Library.AList" "HOL-Library.Multiset"
begin

section \<open>Python strings and dictionaries\<close>

text \<open>
  The dashboard (\<^verbatim>\<open>app.py\<close>) is a Streamlit script: it reads the sidebar selections,
  assembles SQL text with named \<^verbatim>\<open>%(name)s\<close> placeholders together with a dictionary
  of bindings, and hands both to the Snowflake cursor. Strings are \<^typ>\<open>string\<close>; a
  dictionary is an association list in insertion order, and \<^verbatim>\<open>d[k] = v\<close> is
  \<^const>\<open>AList.update\<close> (overwrite in place, or append a new key at the end).
\<close>

type_synonym pydict = "(string \<times> string) list"

definition digit :: "nat \<Rightarrow> char" where
  "digit d = ''0123456789'' ! d"

text \<open>\<^verbatim>\<open>str(idx)\<close> for the non-negative indices that \<^verbatim>\<open>enumerate\<close> yields.\<close>

fun str_nat :: "nat \<Rightarrow> string" where
  "str_nat n = (if n < 10 then [digit n] else str_nat (n div 10) @ [digit (n mod 10)])"

declare str_nat.simps [simp del]

text \<open>\<^verbatim>\<open>sep.join(xs)\<close>.\<close>

fun join :: "string \<Rightarrow> string list \<Rightarrow> string" where
  "join sep [] = []"
| "join sep [x] = x"
| "join sep (x # y # ys) = x @ sep @ join sep (y # ys)"

section \<open>Sidebar selections and the filter builder\<close>

text \<open>
  The values the sidebar widgets return: the two timestamps computed by
  \<^verbatim>\<open>to_ts_range\<close>, the multiselect's list of warehouse names, the fallback window
  and the two free-text inputs.
\<close>

record selections =
  start_ts :: string
  end_ts :: string
  warehouses :: "string list"
  fallback_window :: nat
  user_filter :: string
  query_tag :: string

text \<open>\<^verbatim>\<open>key = f"wh_{idx}"\<close> and \<^verbatim>\<open>f"%({key})s"\<close>.\<close>

definition wh_key :: "nat \<Rightarrow> string" where
  "wh_key idx = ''wh_'' @ str_nat idx"

definition placeholder :: "string \<Rightarrow> string" where
  "placeholder key = ''%('' @ key @ '')s''"

text \<open>
  The body of \<^verbatim>\<open>for idx, wh in enumerate(warehouses)\<close>: the state is the dictionary
  being filled and the list \<^verbatim>\<open>wh_placeholders\<close>.
\<close>

fun wh_loop :: "(nat \<times> string) list \<Rightarrow> pydict \<times> string list \<Rightarrow> pydict \<times> string list" where
  "wh_loop [] st = st"
| "wh_loop ((idx, wh) # rest) (d, phs) =
     wh_loop rest (AList.update (wh_key idx) wh d, phs @ [placeholder (wh_key idx)])"

text \<open>The guard \<^verbatim>\<open>warehouses and "ALL" not in warehouses\<close>.\<close>

definition wh_restricted :: "string list \<Rightarrow> bool" where
  "wh_restricted ws \<longleftrightarrow> ws \<noteq> [] \<and> ''ALL'' \<notin> set ws"

text \<open>
  Lines 195 to 214: \<^verbatim>\<open>base_filters\<close> and \<^verbatim>\<open>params\<close>. A Python string is truthy
  exactly when it is not empty.
\<close>

definition build_filters :: "selections \<Rightarrow> string list \<times> pydict" where
  "build_filters s =
     (let base_filters = [''START_TIME >= %(start_ts)s'', ''START_TIME <= %(end_ts)s''];
          params = [(''start_ts'', start_ts s), (''end_ts'', end_ts s)];
          (base_filters, params) =
            (if wh_restricted (warehouses s) then
               (let (params', wh_placeholders) = wh_loop (enumerate 0 (warehouses s)) (params, [])
                in (base_filters @ [''WAREHOUSE_NAME IN ('' @ join '', '' wh_placeholders @ '')''],
                    params'))
             else (base_filters, params));
          (base_filters, params) =
            (if user_filter s \<noteq> [] then
               (base_filters @ [''USER_NAME = %(user_name)s''],
                AList.update ''user_name'' (user_filter s) params)
             else (base_filters, params));
          (base_filters, params) =
            (if query_tag s \<noteq> [] then
               (base_filters @ [''QUERY_TAG = %(query_tag)s''],
                AList.update ''query_tag'' (query_tag s) params)
             else (base_filters, params))
      in (base_filters, params))"

definition base_filters :: "selections \<Rightarrow> string list" where
  "base_filters s = fst (build_filters s)"

definition params :: "selections \<Rightarrow> pydict" where
  "params s = snd (build_filters s)"

definition base_where :: "selections \<Rightarrow> string" where
  "base_where s = join '' AND '' (base_filters s)"

text \<open>Lines 217 to 225: \<^verbatim>\<open>wh_filter_sql\<close> and \<^verbatim>\<open>wh_params\<close> for the metering queries.\<close>

definition build_wh_filter :: "selections \<Rightarrow> string \<times> pydict" where
  "build_wh_filter s =
     (if wh_restricted (warehouses s) then
        (let (wh_params, wh_placeholders) = wh_loop (enumerate 0 (warehouses s)) ([], [])
         in (''AND WAREHOUSE_NAME IN ('' @ join '', '' wh_placeholders @ '')'', wh_params))
      else ([], []))"

definition wh_filter_sql :: "selections \<Rightarrow> string" where
  "wh_filter_sql s = fst (build_wh_filter s)"

definition wh_params :: "selections \<Rightarrow> pydict" where
  "wh_params s = snd (build_wh_filter s)"

text \<open>
  The placeholders a SQL text refers to, read the way the cursor's \<^verbatim>\<open>pyformat\<close>
  binding reads it: \<^verbatim>\<open>%(\<close> opens a name, the next \<^verbatim>\<open>)\<close> closes it. The result lists
  the names in the order they occur, with repetitions.
\<close>

datatype scan_state = Text | Percent | Key string

fun scan :: "scan_state \<Rightarrow> string \<Rightarrow> string list" where
  "scan st [] = []"
| "scan Text (c # cs) = scan (if c = CHR ''%'' then Percent else Text) cs"
| "scan Percent (c # cs) = scan (if c = CHR ''('' then Key [] else Text) cs"
| "scan (Key k) (c # cs) =
     (if c = CHR '')'' then k # scan Text cs else scan (Key (k @ [c])) cs)"

definition placeholders :: "string \<Rightarrow> string list" where
  "placeholders sql = scan Text sql"

text \<open>
  The shape of a selection is everything the SQL text may depend on: how many warehouses
  are selected, whether the restriction applies, and which of the two text inputs are
  filled. Two selections of one shape differ only in their values.
\<close>

definition same_shape :: "selections \<Rightarrow> selections \<Rightarrow> bool" where
  "same_shape s t \<longleftrightarrow>
     length (warehouses s) = length (warehouses t) \<and>
     (''ALL'' \<in> set (warehouses s)) = (''ALL'' \<in> set (warehouses t)) \<and>
     (user_filter s = []) = (user_filter t = []) \<and>
     (query_tag s = []) = (query_tag t = [])"

text \<open>The bindings and the IN-list that the warehouse loop produces, in closed form.\<close>

definition wh_bindings :: "string list \<Rightarrow> pydict" where
  "wh_bindings ws = map (\<lambda>i. (wh_key i, ws ! i)) [0..<length ws]"

definition wh_in_list :: "nat \<Rightarrow> string" where
  "wh_in_list n = join '', '' (map (\<lambda>i. placeholder (wh_key i)) [0..<n])"

section \<open>The warehouse's tables and the SQL the dashboard submits\<close>

text \<open>
  The SQL texts are evaluated by Snowflake, so their meaning is written out here on lists
  of rows. Timestamps are seconds on the session's clock; numbers are rationals, and the
  division and the product of the cost statement round as Snowflake's fixed-point
  \<^verbatim>\<open>NUMBER\<close> arithmetic does. \<^verbatim>\<open>WAREHOUSE_NAME\<close> is nullable, as
  the \<^verbatim>\<open>IS NOT NULL\<close> test of \<^verbatim>\<open>cost_sql\<close> shows; \<^verbatim>\<open>START_TIME\<close> is not, since
  \<^verbatim>\<open>base_where\<close> compares it with both bounds and a NULL passes neither comparison.
  The predicate \<^verbatim>\<open>WHERE {base_where}\<close> under its bindings enters as a parameter
  \<open>matches\<close>, and the metering queries' predicate as \<open>wh_matches\<close>: nothing below
  depends on which rows they select.
\<close>

type_synonym timestamp = int

record query_history_row =
  query_id :: string
  user_name :: string
  warehouse_name :: "string option"
  start_time :: timestamp
  total_elapsed_time :: int
  bytes_scanned :: "int option"
  credits_used_cloud_services :: "rat option"
  execution_status :: string
  q_query_tag :: string
  query_text :: string

record metering_row =
  m_start_time :: timestamp
  m_warehouse_name :: "string option"
  m_credits_used :: rat

text \<open>\<^verbatim>\<open>DATE_TRUNC('hour', START_TIME)\<close>.\<close>

definition date_trunc_hour :: "timestamp \<Rightarrow> timestamp" where
  "date_trunc_hour t = (t div 3600) * 3600"

type_synonym bucket_key = "timestamp \<times> string option"

definition q_key :: "query_history_row \<Rightarrow> bucket_key" where
  "q_key r = (date_trunc_hour (start_time r), warehouse_name r)"

definition m_key :: "metering_row \<Rightarrow> bucket_key" where
  "m_key m = (date_trunc_hour (m_start_time m), m_warehouse_name m)"

text \<open>
  \<^verbatim>\<open>SELECT k, SUM(v) ... GROUP BY k\<close>: one output row per distinct key. Grouping
  treats two NULLs as the same key.
\<close>

definition group_sum :: "('r \<Rightarrow> 'k) \<Rightarrow> ('r \<Rightarrow> 'v::comm_monoid_add) \<Rightarrow> 'r list \<Rightarrow> ('k \<times> 'v) list" where
  "group_sum key val rs =
     map (\<lambda>k. (k, sum_list (map val (filter (\<lambda>r. key r = k) rs)))) (remdups (map key rs))"

text \<open>
  \<^verbatim>\<open>a LEFT JOIN b ON cond\<close>: every row of \<open>a\<close> with each matching row of \<open>b\<close>, or
  once with NULLs when none matches.
\<close>

definition left_join :: "('a \<Rightarrow> 'b \<Rightarrow> bool) \<Rightarrow> 'a list \<Rightarrow> 'b list \<Rightarrow> ('a \<times> 'b option) list" where
  "left_join cond as bs =
     concat (map (\<lambda>a. case filter (cond a) bs of
                         [] \<Rightarrow> [(a, None)]
                       | ms \<Rightarrow> map (\<lambda>b. (a, Some b)) ms) as)"

text \<open>
  The join condition \<^verbatim>\<open>q.HOUR = x.HOUR AND q.WAREHOUSE_NAME = x.WAREHOUSE_NAME\<close>: an
  equality with a NULL side is not true.
\<close>

definition on_bucket :: "bucket_key \<Rightarrow> bucket_key \<Rightarrow> bool" where
  "on_bucket k k' \<longleftrightarrow> fst k = fst k' \<and> snd k \<noteq> None \<and> snd k' \<noteq> None \<and> snd k = snd k'"

text \<open>
  \<^verbatim>\<open>ORDER BY\<close> as an insertion sort: \<open>ahead a b\<close> says that \<open>a\<close> may stand in front
  of \<open>b\<close>. Rows that tie keep their scan order here; SQL leaves that order open.
\<close>

fun insert_by :: "('a \<Rightarrow> 'a \<Rightarrow> bool) \<Rightarrow> 'a \<Rightarrow> 'a list \<Rightarrow> 'a list" where
  "insert_by ahead x [] = [x]"
| "insert_by ahead x (y # ys) =
     (if ahead x y then x # y # ys else y # insert_by ahead x ys)"

definition order_by :: "('a \<Rightarrow> 'a \<Rightarrow> bool) \<Rightarrow> 'a list \<Rightarrow> 'a list" where
  "order_by ahead rs = foldr (insert_by ahead) rs []"

text \<open>
  \<^verbatim>\<open>ORDER BY x DESC\<close> on a nullable column with no \<^verbatim>\<open>NULLS\<close> clause: Snowflake ranks
  NULL above every value, so descending order starts with the NULLs.
\<close>

fun desc_nulls_first :: "('a::linorder) option \<Rightarrow> 'a option \<Rightarrow> bool" where
  "desc_nulls_first None b = True"
| "desc_nulls_first (Some x) None = False"
| "desc_nulls_first (Some x) (Some y) = (y \<le> x)"

text \<open>The order the specification asks for instead: descending, undefined values last.\<close>

fun desc_nulls_last :: "('a::linorder) option \<Rightarrow> 'a option \<Rightarrow> bool" where
  "desc_nulls_last a None = True"
| "desc_nulls_last None (Some y) = False"
| "desc_nulls_last (Some x) (Some y) = (y \<le> x)"

subsection \<open>Raw query history\<close>

text \<open>
  \<^verbatim>\<open>raw_sql\<close>: \<^verbatim>\<open>SELECT ... WHERE {base_where} ORDER BY START_TIME DESC LIMIT 500\<close>.
\<close>

definition raw_sql :: "(query_history_row \<Rightarrow> bool) \<Rightarrow> query_history_row list \<Rightarrow> query_history_row list" where
  "raw_sql matches history =
     take 500 (order_by (\<lambda>a b. start_time b \<le> start_time a) (filter matches history))"

subsection \<open>Top 10 queries\<close>

text \<open>
  Lines 265 to 277: \<^verbatim>\<open>base_df.sort_values(col, ascending=False).head(10)\<close> for three
  metric columns. The sort is pandas' with its default \<^verbatim>\<open>kind\<close>; that algorithm is no
  part of the script, so the call is described by what every sort kind yields: the rows
  of the frame, descending by the metric, rows with a missing metric last. Which of two
  rows with equal metric comes first is the algorithm's choice and is left open.
\<close>

definition sort_values_desc :: "('r \<Rightarrow> 'k::linorder option) \<Rightarrow> 'r list \<Rightarrow> 'r list \<Rightarrow> bool" where
  "sort_values_desc metric df sorted_df \<longleftrightarrow>
     mset sorted_df = mset df \<and>
     sorted_wrt (\<lambda>a b. desc_nulls_last (metric a) (metric b)) sorted_df"

definition top10 :: "('r \<Rightarrow> 'k::linorder option) \<Rightarrow> 'r list \<Rightarrow> 'r list \<Rightarrow> bool" where
  "top10 metric df view \<longleftrightarrow> (\<exists>sorted_df. sort_values_desc metric df sorted_df \<and> view = take 10 sorted_df)"

subsection \<open>Estimated query cost\<close>

datatype sql_error = Division_by_zero

text \<open>
  A \<^verbatim>\<open>NUMBER\<close> result is kept with a fixed number of decimals, its scale, and rounded
  to it, halves away from zero.
\<close>

definition round_half_away :: "rat \<Rightarrow> int" where
  "round_half_away x = (if 0 \<le> x then \<lfloor>x + 1 / 2\<rfloor> else - \<lfloor>- x + 1 / 2\<rfloor>)"

definition round_scale :: "nat \<Rightarrow> rat \<Rightarrow> rat" where
  "round_scale s x = of_int (round_half_away (x * 10 ^ s)) / 10 ^ s"

text \<open>
  SQL arithmetic on nullable numbers: a NULL operand gives NULL, and Snowflake fails the
  statement on a zero divisor. \<^verbatim>\<open>NULLIF(x, 0)\<close> turns a zero into NULL. The operands
  of the division in \<^verbatim>\<open>cost_sql\<close> are \<^verbatim>\<open>TOTAL_ELAPSED_TIME\<close> and its sum, both
  \<^verbatim>\<open>NUMBER(38,0)\<close>: Snowflake gives the quotient the scale of the numerator plus 6,
  so it is rounded to 6 decimals. The product of that quotient with \<^verbatim>\<open>CREDITS_USED\<close>
  (a \<^verbatim>\<open>NUMBER\<close> of at most 12 decimals) has the sum of the scales, capped at 12, so
  it is rounded to 12 decimals.
\<close>

definition nullif0 :: "rat option \<Rightarrow> rat option" where
  "nullif0 x = (if x = Some 0 then None else x)"

fun sql_div :: "rat option \<Rightarrow> rat option \<Rightarrow> sql_error + rat option" where
  "sql_div (Some a) (Some b) =
     (if b = 0 then Inl Division_by_zero else Inr (Some (round_scale 6 (a / b))))"
| "sql_div a b = Inr None"

fun sql_mul :: "rat option \<Rightarrow> rat option \<Rightarrow> rat option" where
  "sql_mul (Some a) (Some b) = Some (round_scale 12 (a * b))"
| "sql_mul a b = None"

text \<open>A statement fails as a whole when the expression fails on one row.\<close>

fun map_result :: "('a \<Rightarrow> 'e + 'b) \<Rightarrow> 'a list \<Rightarrow> 'e + 'b list" where
  "map_result f [] = Inr []"
| "map_result f (x # xs) =
     (case f x of
        Inl e \<Rightarrow> Inl e
      | Inr y \<Rightarrow> (case map_result f xs of Inl e \<Rightarrow> Inl e | Inr ys \<Rightarrow> Inr (y # ys)))"

text \<open>The three common table expressions of \<^verbatim>\<open>cost_sql\<close>.\<close>

definition q_cte :: "(query_history_row \<Rightarrow> bool) \<Rightarrow> query_history_row list \<Rightarrow> query_history_row list" where
  "q_cte matches history = filter (\<lambda>r. matches r \<and> warehouse_name r \<noteq> None) history"

definition wh_cte :: "(metering_row \<Rightarrow> bool) \<Rightarrow> metering_row list \<Rightarrow> (bucket_key \<times> rat) list" where
  "wh_cte wh_matches metering = group_sum m_key m_credits_used (filter wh_matches metering)"

definition totals_cte :: "query_history_row list \<Rightarrow> (bucket_key \<times> int) list" where
  "totals_cte q = group_sum q_key total_elapsed_time q"

text \<open>One row of the result: the query's columns, \<^verbatim>\<open>wh.CREDITS_USED\<close> and the estimate.\<close>

record cost_row =
  c_query :: query_history_row
  c_credits_used :: "rat option"
  estimated_credits :: "rat option"

text \<open>
  \<^verbatim>\<open>(q.TOTAL_ELAPSED_TIME / NULLIF(t.TOTAL_MS, 0)) * wh.CREDITS_USED\<close> on one joined
  row.
\<close>

definition cost_select ::
  "(query_history_row \<times> (bucket_key \<times> int) option) \<times> (bucket_key \<times> rat) option \<Rightarrow> sql_error + cost_row" where
  "cost_select j =
     (let r = fst (fst j);
          total_ms = map_option (\<lambda>t. of_int (snd t)) (snd (fst j));
          credits = map_option snd (snd j)
      in case sql_div (Some (of_int (total_elapsed_time r))) (nullif0 total_ms) of
           Inl e \<Rightarrow> Inl e
         | Inr share \<Rightarrow>
             Inr \<lparr>c_query = r, c_credits_used = credits,
                  estimated_credits = sql_mul share credits\<rparr>)"

text \<open>The joined and projected rows, before \<^verbatim>\<open>ORDER BY\<close> and \<^verbatim>\<open>LIMIT\<close>.\<close>

definition cost_rows ::
  "(query_history_row \<Rightarrow> bool) \<Rightarrow> (metering_row \<Rightarrow> bool) \<Rightarrow>
   query_history_row list \<Rightarrow> metering_row list \<Rightarrow> sql_error + cost_row list" where
  "cost_rows matches wh_matches history metering =
     (let q = q_cte matches history;
          wh = wh_cte wh_matches metering;
          totals = totals_cte q;
          qt = left_join (\<lambda>r t. on_bucket (q_key r) (fst t)) q totals;
          qtw = left_join (\<lambda>j w. on_bucket (q_key (fst j)) (fst w)) qt wh
      in map_result cost_select qtw)"

text \<open>\<^verbatim>\<open>cost_sql\<close>: the rows \<^verbatim>\<open>ORDER BY ESTIMATED_CREDITS DESC LIMIT 50\<close>.\<close>

definition cost_sql ::
  "(query_history_row \<Rightarrow> bool) \<Rightarrow> (metering_row \<Rightarrow> bool) \<Rightarrow>
   query_history_row list \<Rightarrow> metering_row list \<Rightarrow> sql_error + cost_row list" where
  "cost_sql matches wh_matches history metering =
     (case cost_rows matches wh_matches history metering of
        Inl e \<Rightarrow> Inl e
      | Inr rs \<Rightarrow>
          Inr (take 50 (order_by
                 (\<lambda>a b. desc_nulls_first (estimated_credits a) (estimated_credits b)) rs)))"

text \<open>
  The quantities the specification names: the elapsed time of a query's bucket
  (all rows of \<open>q\<close> with its hour and warehouse) and the credits metered for it.
\<close>

definition group_total :: "query_history_row list \<Rightarrow> bucket_key \<Rightarrow> int" where
  "group_total q k = sum_list (map total_elapsed_time (filter (\<lambda>r. q_key r = k) q))"

definition bucket_credits :: "metering_row list \<Rightarrow> bucket_key \<Rightarrow> rat option" where
  "bucket_credits ms k =
     (if k \<in> set (map m_key ms)
      then Some (sum_list (map m_credits_used (filter (\<lambda>m. m_key m = k) ms)))
      else None)"

text \<open>\<^verbatim>\<open>SUM(ESTIMATED_CREDITS)\<close> over rows: NULLs do not count.\<close>

definition sum_estimates :: "cost_row list \<Rightarrow> rat" where
  "sum_estimates rs = sum_list (map (\<lambda>c. case estimated_credits c of None \<Rightarrow> 0 | Some x \<Rightarrow> x) rs)"

text \<open>
  The allocation in the specification's words: a query's share of its bucket is its
  elapsed time over the bucket's total elapsed time, times the credits metered for the
  bucket; it is undefined when the total is 0 (and when no credits are metered for the
  bucket).
\<close>

definition spec_estimated_credits :: "int \<Rightarrow> int \<Rightarrow> rat option \<Rightarrow> rat option" where
  "spec_estimated_credits elapsed_ms group_total_ms credits =
     (if group_total_ms = 0 then None
      else map_option (\<lambda>c. of_int elapsed_ms / of_int group_total_ms * c) credits)"

text \<open>
  The estimate the statement computes, in closed form: the share rounded to 6 decimals,
  times the credits, rounded to 12 decimals. The row of a query is built from it.
\<close>

definition sql_estimated_credits :: "int \<Rightarrow> int \<Rightarrow> rat option \<Rightarrow> rat option" where
  "sql_estimated_credits elapsed_ms group_total_ms credits =
     (if group_total_ms = 0 then None
      else map_option
        (\<lambda>c. round_scale 12 (round_scale 6 (of_int elapsed_ms / of_int group_total_ms) * c))
        credits)"

definition allocation :: "query_history_row list \<Rightarrow> metering_row list \<Rightarrow> query_history_row \<Rightarrow> cost_row" where
  "allocation q ms r =
     \<lparr>c_query = r,
      c_credits_used = bucket_credits ms (q_key r),
      estimated_credits =
        sql_estimated_credits (total_elapsed_time r) (group_total q (q_key r))
          (bucket_credits ms (q_key r))\<rparr>"

text \<open>
  The largest distance between an estimate and the exact proportional share of \<open>c\<close>
  credits: half a unit of the sixth decimal of the share, times the credits, and half a
  unit of the twelfth decimal of the product.
\<close>

definition rounding_bound :: "rat \<Rightarrow> rat" where
  "rounding_bound c = \<bar>c\<bar> / 2000000 + 1 / 2000000000000"

section \<open>Currently running queries\<close>

text \<open>
  What the script does to the outside is kept as a log of events: the statements it
  sends through the cursor and the widgets it writes to the page. The cursor's answers are
  inputs: each call either succeeds or raises. \<^verbatim>\<open>ProgrammingError\<close> stands for that
  class of the connector and its subclasses, \<^verbatim>\<open>OtherError\<close> for every exception
  outside it (\<^verbatim>\<open>OperationalError\<close>, \<^verbatim>\<open>InterfaceError\<close>, a missing pandas
  dependency, ...); the string is \<^verbatim>\<open>str(exc)\<close>. The connection is taken as
  established: the views above it on the page have already used it.
\<close>

datatype exn = ProgrammingError string | OtherError string

text \<open>
  A \<^verbatim>\<open>DataFrame\<close>: its column labels and its rows, each row giving a value per
  label. \<^verbatim>\<open>pd.DataFrame()\<close> has neither; \<^verbatim>\<open>df.empty\<close> holds when either axis has
  length 0.
\<close>

record dataframe =
  columns :: "string list"
  rows :: "(string \<times> string) list list"

definition empty_frame :: dataframe where
  "empty_frame = \<lparr>columns = [], rows = []\<rparr>"

definition df_empty :: "dataframe \<Rightarrow> bool" where
  "df_empty df \<longleftrightarrow> columns df = [] \<or> rows df = []"

text \<open>\<^verbatim>\<open>running_df[running_df["execution_status"] == "RUNNING"]\<close>.\<close>

definition keep_running :: "dataframe \<Rightarrow> dataframe" where
  "keep_running df =
     df\<lparr>rows := filter (\<lambda>r. map_of r ''execution_status'' = Some ''RUNNING'') (rows df)\<rparr>"

datatype event =
    Show_queries string
  | Result_scan
  | Fetch_pandas_all
  | Cursor_close
  | Fallback_query string nat
  | Warning string
  | Caption string
  | Info string
  | Dataframe dataframe

record snowflake =
  show_queries :: "string \<Rightarrow> exn option"
  result_scan :: "exn option"
  fetched :: "exn + dataframe"
  fallback_history :: "string \<Rightarrow> nat \<Rightarrow> exn + dataframe"

text \<open>The three message texts of the section.\<close>

definition live_unavailable :: string where
  "live_unavailable = ''Live running queries are unavailable. Ensure your role has MONITOR privilege and that SHOW QUERIES is supported in your account.''"

definition fallback_notice :: string where
  "fallback_notice = ''SHOW QUERIES unavailable or empty. Using INFORMATION_SCHEMA fallback.''"

definition select_single :: string where
  "select_single = ''Select a single warehouse to view running queries.''"

text \<open>
  The \<^verbatim>\<open>except sf_errors.ProgrammingError\<close> clause and the \<^verbatim>\<open>finally\<close> of
  \<^verbatim>\<open>run_show_queries\<close>: a \<^verbatim>\<open>ProgrammingError\<close> becomes a warning, a caption with
  the provider's message and an empty frame; any other exception leaves the function after
  the cursor is closed.
\<close>

definition on_exception :: "event list \<Rightarrow> exn \<Rightarrow> event list \<times> (exn + dataframe)" where
  "on_exception evs e =
     (case e of
        ProgrammingError msg \<Rightarrow>
          (evs @ [Warning live_unavailable,
                  Caption (''Snowflake error: '' @ msg),
                  Cursor_close],
           Inr empty_frame)
      | OtherError msg \<Rightarrow> (evs @ [Cursor_close], Inl e))"

definition run_show_queries :: "snowflake \<Rightarrow> string \<Rightarrow> event list \<times> (exn + dataframe)" where
  "run_show_queries sf warehouse =
     (case show_queries sf warehouse of
        Some e \<Rightarrow> on_exception [Show_queries warehouse] e
      | None \<Rightarrow>
          (case result_scan sf of
             Some e \<Rightarrow> on_exception [Show_queries warehouse, Result_scan] e
           | None \<Rightarrow>
               (case fetched sf of
                  Inl e \<Rightarrow> on_exception [Show_queries warehouse, Result_scan, Fetch_pandas_all] e
                | Inr df \<Rightarrow>
                    ([Show_queries warehouse, Result_scan, Fetch_pandas_all, Cursor_close],
                     Inr df))))"

text \<open>
  Lines 296 to 306. The result is the log and the exception that ended the script, if
  one did. \<^verbatim>\<open>run_running_queries_fallback\<close> submits its statement with the bindings
  \<^verbatim>\<open>warehouse\<close> and \<^verbatim>\<open>minutes\<close> through \<^verbatim>\<open>run_query\<close>; a call counts as issued
  whether or not the 60 second cache answers it.
\<close>

definition running_view :: "snowflake \<Rightarrow> selections \<Rightarrow> event list \<times> exn option" where
  "running_view sf s =
     (let ws = warehouses s in
      if ws \<noteq> [] \<and> ''ALL'' \<notin> set ws \<and> length ws = 1 then
        (case run_show_queries sf (ws ! 0) of
           (evs, Inl e) \<Rightarrow> (evs, Some e)
         | (evs, Inr df) \<Rightarrow>
             (let running_df =
                    (if ''execution_status'' \<in> set (columns df) then keep_running df else df)
              in if df_empty running_df then
                   (let evs = evs @ [Info fallback_notice,
                                     Fallback_query (ws ! 0) (fallback_window s)]
                    in case fallback_history sf (ws ! 0) (fallback_window s) of
                         Inl e \<Rightarrow> (evs, Some e)
                       | Inr fallback_df \<Rightarrow> (evs @ [Dataframe fallback_df], None))
                 else (evs @ [Dataframe running_df], None)))
      else ([Info select_single], None))"

text \<open>
  The first exception the cursor raises inside the \<^verbatim>\<open>try\<close> of
  \<^verbatim>\<open>run_show_queries\<close>, if any of its three calls raises.
\<close>

definition first_failure :: "snowflake \<Rightarrow> string \<Rightarrow> exn option" where
  "first_failure sf warehouse =
     (case show_queries sf warehouse of
        Some e \<Rightarrow> Some e
      | None \<Rightarrow>
          (case result_scan sf of
             Some e \<Rightarrow> Some e
           | None \<Rightarrow> (case fetched sf of Inl e \<Rightarrow> Some e | Inr df \<Rightarrow> None)))"

text \<open>Exactly one concrete warehouse is selected.\<close>

definition single_warehouse :: "selections \<Rightarrow> string \<Rightarrow> bool" where
  "single_warehouse s w \<longleftrightarrow> warehouses s = [w] \<and> w \<noteq> ''ALL''"

text \<open>The events that send a statement to the warehouse.\<close>

fun is_query :: "event \<Rightarrow> bool" where
  "is_query (Show_queries w) = True"
| "is_query Result_scan = True"
| "is_query (Fallback_query w n) = True"
| "is_query e = False"

text \<open>
  The frame the view goes on with after the privileged path answered: filtered to the
  RUNNING rows when the answer has an \<^verbatim>\<open>execution_status\<close> column.
\<close>

definition running_rows :: "dataframe \<Rightarrow> dataframe" where
  "running_rows df = (if ''execution_status'' \<in> set (columns df) then keep_running df else df)"

section \<open>Example inputs\<close>

definition sel_two :: selections where
  "sel_two = \<lparr>start_ts = ''2024-03-01 00:00:00'', end_ts = ''2024-03-08 23:59:59.999999'',
     warehouses = [''LOAD_WH'', ''BI_WH''], fallback_window = 60,
     user_filter = ''alice'', query_tag = []\<rparr>"

definition sel_other :: selections where
  "sel_other = \<lparr>start_ts = ''2023-12-31 00:00:00'', end_ts = ''2024-01-01 23:59:59.999999'',
     warehouses = [''x'' @ [CHR 0x27] @ '') OR 1=1 --'', ''ETL''], fallback_window = 15,
     user_filter = ''bob'', query_tag = []\<rparr>"

definition sel_all :: selections where
  "sel_all = \<lparr>start_ts = ''2024-03-01 00:00:00'', end_ts = ''2024-03-08 23:59:59.999999'',
     warehouses = [''LOAD_WH'', ''ALL'', ''BI_WH''], fallback_window = 60,
     user_filter = [], query_tag = ''nightly''\<rparr>"

definition sel_blank :: selections where
  "sel_blank = \<lparr>start_ts = ''2024-03-01 00:00:00'', end_ts = ''2024-03-08 23:59:59.999999'',
     warehouses = [''ALL''], fallback_window = 60,
     user_filter = '' '', query_tag = ''  ''\<rparr>"

definition sel_one :: selections where
  "sel_one = \<lparr>start_ts = ''2024-03-01 00:00:00'', end_ts = ''2024-03-08 23:59:59.999999'',
     warehouses = [''LOAD_WH''], fallback_window = 30,
     user_filter = [], query_tag = []\<rparr>"

text \<open>
  Answers of the warehouse for the live view: a role without the privilege
  (\<^verbatim>\<open>ProgrammingError\<close>), a lost connection (\<^verbatim>\<open>OperationalError\<close>), and a successful
  introspection with one running and one queued query.
\<close>

definition history_frame :: dataframe where
  "history_frame = \<lparr>columns = [''QUERY_ID'', ''EXECUTION_STATUS''],
     rows = [[(''QUERY_ID'', ''01b2''), (''EXECUTION_STATUS'', ''RUNNING'')]]\<rparr>"

definition live_frame :: dataframe where
  "live_frame = \<lparr>columns = [''query_id'', ''execution_status''],
     rows = [[(''query_id'', ''01a7''), (''execution_status'', ''RUNNING'')],
             [(''query_id'', ''01a8''), (''execution_status'', ''QUEUED'')]]\<rparr>"

definition sf_denied :: snowflake where
  "sf_denied = \<lparr>show_queries = (\<lambda>w. Some (ProgrammingError ''003001 (42501): Insufficient privileges'')),
     result_scan = None, fetched = Inr empty_frame,
     fallback_history = (\<lambda>w n. Inr history_frame)\<rparr>"

definition sf_offline :: snowflake where
  "sf_offline = \<lparr>show_queries = (\<lambda>w. Some (OtherError ''250003: Failed to execute request'')),
     result_scan = None, fetched = Inr empty_frame,
     fallback_history = (\<lambda>w n. Inr history_frame)\<rparr>"

definition sf_live :: snowflake where
  "sf_live = \<lparr>show_queries = (\<lambda>w. None), result_scan = None, fetched = Inr live_frame,
     fallback_history = (\<lambda>w n. Inr history_frame)\<rparr>"

text \<open>
  Rows for the allocation examples: two queries of 100 ms and 300 ms in one hour of one
  warehouse with 4 credits metered, and a query of 0 ms alone in the next hour; three
  queries of 1 ms sharing an hour with 3 credits; and one query with metered credits
  next to fifty queries of 0 ms.
\<close>

definition example_query :: "string \<Rightarrow> timestamp \<Rightarrow> int \<Rightarrow> query_history_row" where
  "example_query qid t ms =
     \<lparr>query_id = qid, user_name = ''ANALYST'', warehouse_name = Some ''LOAD_WH'',
      start_time = t, total_elapsed_time = ms, bytes_scanned = Some 1024,
      credits_used_cloud_services = None, execution_status = ''SUCCESS'',
      q_query_tag = [], query_text = ''SELECT 1''\<rparr>"

definition example_history :: "query_history_row list" where
  "example_history = [example_query ''q-100'' 36005 100, example_query ''q-300'' 37800 300]"

definition example_metering :: "metering_row list" where
  "example_metering =
     [\<lparr>m_start_time = 36000, m_warehouse_name = Some ''LOAD_WH'', m_credits_used = 4\<rparr>,
      \<lparr>m_start_time = 39600, m_warehouse_name = Some ''LOAD_WH'', m_credits_used = 2\<rparr>]"

definition idle_history :: "query_history_row list" where
  "idle_history = [example_query ''q-0'' 39700 0]"

definition thirds_history :: "query_history_row list" where
  "thirds_history =
     [example_query ''q-a'' 36005 1, example_query ''q-b'' 37800 1, example_query ''q-c'' 37800 1]"

definition thirds_metering :: "metering_row list" where
  "thirds_metering =
     [\<lparr>m_start_time = 36000, m_warehouse_name = Some ''LOAD_WH'', m_credits_used = 3\<rparr>]"

definition crowded_history :: "query_history_row list" where
  "crowded_history =
     example_query ''q-cost'' 36005 100 # replicate 50 (example_query ''q-0'' 39700 0)"

definition every_row :: "'a \<Rightarrow> bool" where
  "every_row r = True"

section \<open>Properties of the filter builder\<close>

subsection \<open>Decimal indices and keys\<close>

lemma digit_inj: "a < 10 \<Longrightarrow> b < 10 \<Longrightarrow> digit a = digit b \<Longrightarrow> a = b"
proof -
  assume a: "a < 10" and b: "b < 10" and e: "digit a = digit b"
  from a have "a \<in> {0,1,2,3,4,5,6,7,8,9}" by auto
  moreover from b have "b \<in> {0,1,2,3,4,5,6,7,8,9}" by auto
  ultimately show ?thesis using e by (auto simp: digit_def)
qed

lemma digit_in: "d < 10 \<Longrightarrow> digit d \<in> set ''0123456789''"
  unfolding digit_def by (rule nth_mem) simp

lemma str_nat_nonempty: "str_nat n \<noteq> []"
  by (subst str_nat.simps) simp

lemma str_nat_chars: "set (str_nat n) \<subseteq> set ''0123456789''"
proof (induction n rule: str_nat.induct)
  case (1 n)
  show ?case
  proof (cases "n < 10")
    case True
    then show ?thesis using digit_in [of n] by (subst str_nat.simps) simp
  next
    case False
    have "n mod 10 < 10" by simp
    then have "digit (n mod 10) \<in> set ''0123456789''" by (rule digit_in)
    with False 1 show ?thesis by (subst str_nat.simps) simp
  qed
qed

lemma str_nat_inj: "str_nat n = str_nat m \<Longrightarrow> n = m"
proof (induction n arbitrary: m rule: str_nat.induct)
  case (1 n)
  show ?case
  proof (cases "n < 10")
    case n: True
    show ?thesis
    proof (cases "m < 10")
      case True
      with n 1(2) show ?thesis
        by (simp add: str_nat.simps [of n] str_nat.simps [of m] digit_inj)
    next
      case False
      with n 1(2) str_nat_nonempty [of "m div 10"] show ?thesis
        by (simp add: str_nat.simps [of n] str_nat.simps [of m])
    qed
  next
    case n: False
    show ?thesis
    proof (cases "m < 10")
      case True
      with n 1(2) str_nat_nonempty [of "n div 10"] show ?thesis
        by (simp add: str_nat.simps [of n] str_nat.simps [of m])
    next
      case False
      with n 1(2) have e: "str_nat (n div 10) = str_nat (m div 10)"
        and d: "digit (n mod 10) = digit (m mod 10)"
        by (simp_all add: str_nat.simps [of n] str_nat.simps [of m])
      from 1(1) [OF n e] have "n div 10 = m div 10" .
      moreover from d have "n mod 10 = m mod 10" by (intro digit_inj) simp_all
      ultimately show ?thesis by (metis div_mult_mod_eq)
    qed
  qed
qed

lemma wh_key_inj: "wh_key i = wh_key j \<Longrightarrow> i = j"
  by (simp add: wh_key_def str_nat_inj)

lemma wh_key_chars: "CHR '')'' \<notin> set (wh_key i)" "CHR ''%'' \<notin> set (wh_key i)"
  using str_nat_chars [of i] by (auto simp: wh_key_def)

lemma wh_key_neq: "wh_key i \<noteq> ''start_ts''" "wh_key i \<noteq> ''end_ts''"
  "wh_key i \<noteq> ''user_name''" "wh_key i \<noteq> ''query_tag''"
  by (simp_all add: wh_key_def)

subsection \<open>The warehouse loop in closed form\<close>

lemma update_fresh: "k \<notin> fst ` set d \<Longrightarrow> AList.update k v d = d @ [(k, v)]"
  by (induction d) auto

lemma wh_loop_placeholders:
  "snd (wh_loop es (d, phs)) = phs @ map (\<lambda>(i, w). placeholder (wh_key i)) es"
  by (induction es arbitrary: d phs) auto

lemma wh_loop_dict:
  "distinct (map fst es) \<Longrightarrow> (\<forall>i \<in> fst ` set es. wh_key i \<notin> fst ` set d) \<Longrightarrow>
   fst (wh_loop es (d, phs)) = d @ map (\<lambda>(i, w). (wh_key i, w)) es"
proof (induction es arbitrary: d phs)
  case Nil
  then show ?case by simp
next
  case (Cons e es)
  obtain i w where e: "e = (i, w)" by (cases e)
  from Cons.prems e have fresh: "wh_key i \<notin> fst ` set d" by simp
  have fresh': "\<forall>j \<in> fst ` set es. wh_key j \<notin> fst ` set (d @ [(wh_key i, w)])"
  proof
    fix j assume j: "j \<in> fst ` set es"
    with Cons.prems e have "j \<noteq> i" by auto
    then have "wh_key j \<noteq> wh_key i" using wh_key_inj by blast
    moreover from Cons.prems j have "wh_key j \<notin> fst ` set d" by auto
    ultimately show "wh_key j \<notin> fst ` set (d @ [(wh_key i, w)])" by auto
  qed
  from Cons.prems have "distinct (map fst es)" by simp
  then have "fst (wh_loop es (d @ [(wh_key i, w)], phs @ [placeholder (wh_key i)]))
      = (d @ [(wh_key i, w)]) @ map (\<lambda>(i, w). (wh_key i, w)) es"
    using fresh' by (rule Cons.IH)
  with e fresh show ?case by (simp add: update_fresh)
qed

lemma enumerate_0: "enumerate 0 ws = map (\<lambda>i. (i, ws ! i)) [0..<length ws]"
  by (rule nth_equalityI) (simp_all add: nth_enumerate_eq)

lemma wh_loop_enumerate:
  assumes "\<forall>i. wh_key i \<notin> fst ` set d"
  shows "wh_loop (enumerate 0 ws) (d, []) =
    (d @ wh_bindings ws, map (\<lambda>i. placeholder (wh_key i)) [0..<length ws])"
proof -
  have "distinct (map fst (enumerate 0 ws))" by (simp add: map_fst_enumerate)
  moreover from assms have "\<forall>i \<in> fst ` set (enumerate 0 ws). wh_key i \<notin> fst ` set d" by simp
  ultimately have "fst (wh_loop (enumerate 0 ws) (d, [])) = d @ map (\<lambda>(i, w). (wh_key i, w)) (enumerate 0 ws)"
    by (rule wh_loop_dict)
  then have "fst (wh_loop (enumerate 0 ws) (d, [])) = d @ wh_bindings ws"
    by (simp add: enumerate_0 wh_bindings_def comp_def)
  moreover have "snd (wh_loop (enumerate 0 ws) (d, [])) = map (\<lambda>i. placeholder (wh_key i)) [0..<length ws]"
    by (simp add: wh_loop_placeholders enumerate_0 comp_def)
  ultimately show ?thesis by (simp add: prod_eq_iff)
qed

lemma wh_bindings_keys: "map fst (wh_bindings ws) = map wh_key [0..<length ws]"
  by (simp add: wh_bindings_def comp_def)

lemma wh_keys_distinct: "distinct (map wh_key [0..<n])"
  by (simp add: distinct_map inj_on_def wh_key_inj)

lemma update_after_wh:
  "k \<notin> fst ` set d \<Longrightarrow> (\<forall>i. wh_key i \<noteq> k) \<Longrightarrow>
   AList.update k v (d @ wh_bindings ws) = d @ wh_bindings ws @ [(k, v)]"
  by (subst update_fresh) (auto simp: wh_bindings_def)

lemma build_filters_closed:
  "build_filters s =
    ([''START_TIME >= %(start_ts)s'', ''START_TIME <= %(end_ts)s''] @
     (if wh_restricted (warehouses s)
      then [''WAREHOUSE_NAME IN ('' @ wh_in_list (length (warehouses s)) @ '')''] else []) @
     (if user_filter s \<noteq> [] then [''USER_NAME = %(user_name)s''] else []) @
     (if query_tag s \<noteq> [] then [''QUERY_TAG = %(query_tag)s''] else []),
     [(''start_ts'', start_ts s), (''end_ts'', end_ts s)] @
     (if wh_restricted (warehouses s) then wh_bindings (warehouses s) else []) @
     (if user_filter s \<noteq> [] then [(''user_name'', user_filter s)] else []) @
     (if query_tag s \<noteq> [] then [(''query_tag'', query_tag s)] else []))"
proof -
  have loop: "wh_loop (enumerate 0 (warehouses s)) ([(''start_ts'', start_ts s), (''end_ts'', end_ts s)], []) =
    ([(''start_ts'', start_ts s), (''end_ts'', end_ts s)] @ wh_bindings (warehouses s),
     map (\<lambda>i. placeholder (wh_key i)) [0..<length (warehouses s)])"
    by (rule wh_loop_enumerate) (simp add: wh_key_neq)
  have fresh: "\<And>k. k = ''user_name'' \<or> k = ''query_tag'' \<Longrightarrow> k \<notin> fst ` set (wh_bindings (warehouses s))"
    using wh_key_neq by (auto simp: wh_bindings_def)
  show ?thesis
    unfolding build_filters_def loop Let_def
    using fresh by (auto simp: wh_in_list_def update_fresh)
qed

lemma build_wh_filter_closed:
  "build_wh_filter s =
    (if wh_restricted (warehouses s)
     then (''AND WAREHOUSE_NAME IN ('' @ wh_in_list (length (warehouses s)) @ '')'',
           wh_bindings (warehouses s))
     else ([], []))"
proof -
  have "wh_loop (enumerate 0 (warehouses s)) ([], []) =
    ([] @ wh_bindings (warehouses s), map (\<lambda>i. placeholder (wh_key i)) [0..<length (warehouses s)])"
    by (rule wh_loop_enumerate) simp
  then show ?thesis by (simp add: build_wh_filter_def wh_in_list_def)
qed

subsection \<open>Placeholders of the generated text\<close>

lemma scan_key:
  "CHR '')'' \<notin> set k \<Longrightarrow> scan (Key a) (k @ CHR '')'' # rest) = (a @ k) # scan Text rest"
  by (induction k arbitrary: a) auto

lemma scan_placeholder:
  "CHR '')'' \<notin> set k \<Longrightarrow> scan Text (placeholder k @ rest) = k # scan Text rest"
  using scan_key [of k "[]" "CHR ''s'' # rest"] by (simp add: placeholder_def)

lemma scan_wh_placeholder:
  "scan Text (placeholder (wh_key i) @ rest) = wh_key i # scan Text rest"
  by (rule scan_placeholder) (rule wh_key_chars)

lemma scan_join_wh:
  "scan Text (join '', '' (map (\<lambda>i. placeholder (wh_key i)) js) @ rest) =
     map wh_key js @ scan Text rest"
proof (induction js rule: induct_list012)
  case 1
  show ?case by simp
next
  case (2 j)
  show ?case by (simp add: scan_wh_placeholder)
next
  case (3 i j js)
  have "scan Text (join '', '' (map (\<lambda>i. placeholder (wh_key i)) (i # j # js)) @ rest) =
        scan Text (placeholder (wh_key i) @ '', '' @ join '', '' (map (\<lambda>i. placeholder (wh_key i)) (j # js)) @ rest)"
    by simp
  also have "\<dots> = wh_key i # scan Text ('', '' @ join '', '' (map (\<lambda>i. placeholder (wh_key i)) (j # js)) @ rest)"
    by (rule scan_wh_placeholder)
  also have "\<dots> = wh_key i # scan Text (join '', '' (map (\<lambda>i. placeholder (wh_key i)) (j # js)) @ rest)"
    by simp
  also have "\<dots> = wh_key i # map wh_key (j # js) @ scan Text rest"
    using 3 by simp
  finally show ?case by simp
qed

lemma scan_wh_in_list:
  "scan Text (wh_in_list n @ rest) = map wh_key [0..<n] @ scan Text rest"
  unfolding wh_in_list_def by (rule scan_join_wh)

lemma placeholders_base_where: "placeholders (base_where s) = map fst (params s)"
  by (simp add: placeholders_def base_where_def base_filters_def params_def
      build_filters_closed scan_wh_in_list wh_bindings_keys)

lemma placeholders_wh_filter_sql: "placeholders (wh_filter_sql s) = map fst (wh_params s)"
  by (simp add: placeholders_def wh_filter_sql_def wh_params_def
      build_wh_filter_closed scan_wh_in_list wh_bindings_keys)

lemma params_keys:
  "map fst (params s) =
     [''start_ts'', ''end_ts''] @
     (if wh_restricted (warehouses s) then map wh_key [0..<length (warehouses s)] else []) @
     (if user_filter s \<noteq> [] then [''user_name''] else []) @
     (if query_tag s \<noteq> [] then [''query_tag''] else [])"
  by (simp add: params_def build_filters_closed wh_bindings_keys)

lemma fixed_keys_not_wh:
  "''start_ts'' \<notin> wh_key ` A" "''end_ts'' \<notin> wh_key ` A"
  "''user_name'' \<notin> wh_key ` A" "''query_tag'' \<notin> wh_key ` A"
  using wh_key_neq by (metis imageE)+

lemma params_keys_distinct: "distinct (map fst (params s))"
  unfolding params_keys by (simp add: wh_keys_distinct fixed_keys_not_wh)

lemma wh_params_keys_distinct: "distinct (map fst (wh_params s))"
  by (simp add: wh_params_def build_wh_filter_closed wh_bindings_keys wh_keys_distinct)

lemma wh_restricted_shape:
  "same_shape s t \<Longrightarrow> wh_restricted (warehouses s) = wh_restricted (warehouses t)"
  unfolding same_shape_def wh_restricted_def by (metis length_0_conv)

lemma same_shape_sql:
  assumes "same_shape s t"
  shows "base_where s = base_where t" and "wh_filter_sql s = wh_filter_sql t"
proof -
  from assms have r: "wh_restricted (warehouses s) = wh_restricted (warehouses t)"
    by (rule wh_restricted_shape)
  from assms have l: "length (warehouses s) = length (warehouses t)"
    and u: "(user_filter s = []) = (user_filter t = [])"
    and q: "(query_tag s = []) = (query_tag t = [])"
    by (simp_all add: same_shape_def)
  show "base_where s = base_where t"
    by (simp add: base_where_def base_filters_def build_filters_closed r l u q)
  show "wh_filter_sql s = wh_filter_sql t"
    by (simp add: wh_filter_sql_def build_wh_filter_closed r l)
qed

subsection \<open>Values travel as bindings\<close>

lemma params_closed:
  "params s =
     [(''start_ts'', start_ts s), (''end_ts'', end_ts s)] @
     (if wh_restricted (warehouses s) then wh_bindings (warehouses s) else []) @
     (if user_filter s \<noteq> [] then [(''user_name'', user_filter s)] else []) @
     (if query_tag s \<noteq> [] then [(''query_tag'', query_tag s)] else [])"
  by (simp add: params_def build_filters_closed)

lemma base_filters_closed:
  "base_filters s =
     [''START_TIME >= %(start_ts)s'', ''START_TIME <= %(end_ts)s''] @
     (if wh_restricted (warehouses s)
      then [''WAREHOUSE_NAME IN ('' @ wh_in_list (length (warehouses s)) @ '')''] else []) @
     (if user_filter s \<noteq> [] then [''USER_NAME = %(user_name)s''] else []) @
     (if query_tag s \<noteq> [] then [''QUERY_TAG = %(query_tag)s''] else [])"
  by (simp add: base_filters_def build_filters_closed)

lemma params_values:
  "snd ` set (params s) \<subseteq> {start_ts s, end_ts s, user_filter s, query_tag s} \<union> set (warehouses s)"
  by (auto simp: params_closed wh_bindings_def)

text \<open>
  Claim C1. The SQL text is a function of the selection's shape alone: two selections
  that differ only in their values (timestamps, warehouse names, user, tag) produce the
  same \<^verbatim>\<open>base_where\<close> and the same \<^verbatim>\<open>wh_filter_sql\<close>, so no value is ever written into
  the text. The placeholders the text refers to are exactly the keys of the binding
  dictionary, in the same order and each once, and the dictionary binds every selected
  value under its key.
\<close>

theorem filter_sql_placeholders_only:
  "(same_shape s t \<longrightarrow> base_where s = base_where t \<and> wh_filter_sql s = wh_filter_sql t) \<and>
   placeholders (base_where s) = map fst (params s) \<and>
   distinct (map fst (params s)) \<and>
   placeholders (wh_filter_sql s) = map fst (wh_params s) \<and>
   distinct (map fst (wh_params s)) \<and>
   params s =
     [(''start_ts'', start_ts s), (''end_ts'', end_ts s)] @
     (if wh_restricted (warehouses s) then wh_bindings (warehouses s) else []) @
     (if user_filter s \<noteq> [] then [(''user_name'', user_filter s)] else []) @
     (if query_tag s \<noteq> [] then [(''query_tag'', query_tag s)] else []) \<and>
   wh_params s = (if wh_restricted (warehouses s) then wh_bindings (warehouses s) else [])"
proof -
  have "same_shape s t \<longrightarrow> base_where s = base_where t \<and> wh_filter_sql s = wh_filter_sql t"
    using same_shape_sql by blast
  moreover have "wh_params s = (if wh_restricted (warehouses s) then wh_bindings (warehouses s) else [])"
    by (simp add: wh_params_def build_wh_filter_closed)
  ultimately show ?thesis
    using placeholders_base_where params_keys_distinct placeholders_wh_filter_sql
      wh_params_keys_distinct params_closed by blast
qed

lemma str_nat_small: "n < 10 \<Longrightarrow> str_nat n = [digit n]"
  by (simp add: str_nat.simps)

theorem filter_sql_placeholders_only_witness:
  "same_shape sel_two sel_other \<and>
   base_where sel_other = base_where sel_two \<and>
   base_where sel_two =
     ''START_TIME >= %(start_ts)s AND START_TIME <= %(end_ts)s AND WAREHOUSE_NAME IN (%(wh_0)s, %(wh_1)s) AND USER_NAME = %(user_name)s'' \<and>
   placeholders (base_where sel_other) = [''start_ts'', ''end_ts'', ''wh_0'', ''wh_1'', ''user_name''] \<and>
   params sel_other =
     [(''start_ts'', ''2023-12-31 00:00:00''), (''end_ts'', ''2024-01-01 23:59:59.999999''),
      (''wh_0'', ''x'' @ [CHR 0x27] @ '') OR 1=1 --''), (''wh_1'', ''ETL''), (''user_name'', ''bob'')]"
proof -
  have shape: "same_shape sel_two sel_other"
    by (simp add: same_shape_def sel_two_def sel_other_def)
  have p: "params sel_other =
     [(''start_ts'', ''2023-12-31 00:00:00''), (''end_ts'', ''2024-01-01 23:59:59.999999''),
      (''wh_0'', ''x'' @ [CHR 0x27] @ '') OR 1=1 --''), (''wh_1'', ''ETL''), (''user_name'', ''bob'')]"
    by (simp add: params_closed sel_other_def wh_restricted_def wh_bindings_def wh_key_def
        str_nat_small digit_def upt_rec)
  have b: "base_where sel_two =
     ''START_TIME >= %(start_ts)s AND START_TIME <= %(end_ts)s AND WAREHOUSE_NAME IN (%(wh_0)s, %(wh_1)s) AND USER_NAME = %(user_name)s''"
    by (simp add: base_where_def base_filters_closed sel_two_def wh_restricted_def wh_in_list_def
        wh_key_def placeholder_def str_nat_small digit_def upt_rec)
  from filter_sql_placeholders_only [of sel_two sel_other] shape
  have e: "base_where sel_two = base_where sel_other" by blast
  from filter_sql_placeholders_only [of sel_other sel_two]
  have "placeholders (base_where sel_other) = map fst (params sel_other)" by blast
  with p have "placeholders (base_where sel_other) = [''start_ts'', ''end_ts'', ''wh_0'', ''wh_1'', ''user_name'']"
    by simp
  with shape e b p show ?thesis by simp
qed

subsection \<open>Warehouse selection\<close>

lemma map_of_wh_bindings:
  "i < length ws \<Longrightarrow> map_of (wh_bindings ws) (wh_key i) = Some (ws ! i)"
proof -
  assume i: "i < length ws"
  have d: "distinct (map fst (wh_bindings ws))"
    by (simp add: wh_bindings_keys wh_keys_distinct)
  from i have "(wh_key i, ws ! i) \<in> set (wh_bindings ws)"
    by (auto simp: wh_bindings_def)
  with d show ?thesis by (rule map_of_is_SomeI)
qed

lemma map_of_params_wh:
  assumes "wh_restricted (warehouses s)" and "i < length (warehouses s)"
  shows "map_of (params s) (wh_key i) = Some (warehouses s ! i)"
proof -
  from assms(2) have "(wh_key i, warehouses s ! i) \<in> set (wh_bindings (warehouses s))"
    by (auto simp: wh_bindings_def)
  with assms(1) have "(wh_key i, warehouses s ! i) \<in> set (params s)"
    by (simp add: params_closed)
  with params_keys_distinct show ?thesis by (rule map_of_is_SomeI)
qed

lemma placeholders_in_clause:
  "placeholders (''WAREHOUSE_NAME IN ('' @ wh_in_list n @ '')'') = map wh_key [0..<n]"
  by (simp add: placeholders_def scan_wh_in_list)

text \<open>
  Claim C2. When the selection contains the sentinel \<^verbatim>\<open>ALL\<close>, whatever else is
  selected with it (and likewise when nothing is selected), the predicate has the two
  time clauses and the user and tag clauses only: it is the predicate of the empty
  selection, no \<^verbatim>\<open>wh_\<close> key is bound and \<^verbatim>\<open>wh_filter_sql\<close> is empty. Otherwise the
  selection adds one IN-list as third clause, with one placeholder per selected
  warehouse, pairwise different, the i-th bound to the i-th selected name.
\<close>

theorem all_sentinel_lifts_warehouse_restriction:
  "(''ALL'' \<in> set (warehouses s) \<or> warehouses s = [] \<longrightarrow>
      base_filters s =
        [''START_TIME >= %(start_ts)s'', ''START_TIME <= %(end_ts)s''] @
        (if user_filter s \<noteq> [] then [''USER_NAME = %(user_name)s''] else []) @
        (if query_tag s \<noteq> [] then [''QUERY_TAG = %(query_tag)s''] else []) \<and>
      base_where s = base_where (s\<lparr>warehouses := []\<rparr>) \<and>
      params s = params (s\<lparr>warehouses := []\<rparr>) \<and>
      wh_filter_sql s = [] \<and> wh_params s = []) \<and>
   (''ALL'' \<notin> set (warehouses s) \<and> warehouses s \<noteq> [] \<longrightarrow>
      base_filters s ! 2 =
        ''WAREHOUSE_NAME IN ('' @
          join '', '' (map (\<lambda>i. placeholder (wh_key i)) [0..<length (warehouses s)]) @ '')'' \<and>
      wh_filter_sql s = ''AND '' @ base_filters s ! 2 \<and>
      placeholders (base_filters s ! 2) = map wh_key [0..<length (warehouses s)] \<and>
      distinct (map wh_key [0..<length (warehouses s)]) \<and>
      (\<forall>i < length (warehouses s).
         map_of (params s) (wh_key i) = Some (warehouses s ! i) \<and>
         map_of (wh_params s) (wh_key i) = Some (warehouses s ! i)))"
proof (intro conjI impI)
  assume a: "''ALL'' \<in> set (warehouses s) \<or> warehouses s = []"
  then have r: "\<not> wh_restricted (warehouses s)" by (auto simp: wh_restricted_def)
  have r0: "\<not> wh_restricted []" by (simp add: wh_restricted_def)
  from r show "base_filters s =
        [''START_TIME >= %(start_ts)s'', ''START_TIME <= %(end_ts)s''] @
        (if user_filter s \<noteq> [] then [''USER_NAME = %(user_name)s''] else []) @
        (if query_tag s \<noteq> [] then [''QUERY_TAG = %(query_tag)s''] else [])"
    by (simp add: base_filters_closed)
  from r r0 show "base_where s = base_where (s\<lparr>warehouses := []\<rparr>)"
    by (simp add: base_where_def base_filters_closed)
  from r r0 show "params s = params (s\<lparr>warehouses := []\<rparr>)"
    by (simp add: params_closed)
  from r show "wh_filter_sql s = []" by (simp add: wh_filter_sql_def build_wh_filter_closed)
  from r show "wh_params s = []" by (simp add: wh_params_def build_wh_filter_closed)
next
  assume "''ALL'' \<notin> set (warehouses s) \<and> warehouses s \<noteq> []"
  then have r: "wh_restricted (warehouses s)" by (simp add: wh_restricted_def)
  then have c: "base_filters s ! 2 = ''WAREHOUSE_NAME IN ('' @ wh_in_list (length (warehouses s)) @ '')''"
    by (simp add: base_filters_closed)
  then show "base_filters s ! 2 =
        ''WAREHOUSE_NAME IN ('' @
          join '', '' (map (\<lambda>i. placeholder (wh_key i)) [0..<length (warehouses s)]) @ '')''"
    by (simp add: wh_in_list_def)
  from r c show "wh_filter_sql s = ''AND '' @ base_filters s ! 2"
    by (simp add: wh_filter_sql_def build_wh_filter_closed)
  from c show "placeholders (base_filters s ! 2) = map wh_key [0..<length (warehouses s)]"
    by (simp only: placeholders_in_clause)
  show "distinct (map wh_key [0..<length (warehouses s)])" by (rule wh_keys_distinct)
  show "\<forall>i < length (warehouses s).
         map_of (params s) (wh_key i) = Some (warehouses s ! i) \<and>
         map_of (wh_params s) (wh_key i) = Some (warehouses s ! i)"
    using r by (simp add: map_of_params_wh wh_params_def build_wh_filter_closed map_of_wh_bindings)
qed

theorem all_sentinel_lifts_warehouse_restriction_witness:
  "''ALL'' \<in> set (warehouses sel_all) \<and>
   base_filters sel_all =
     [''START_TIME >= %(start_ts)s'', ''START_TIME <= %(end_ts)s'', ''QUERY_TAG = %(query_tag)s''] \<and>
   wh_filter_sql sel_all = [] \<and>
   ''ALL'' \<notin> set (warehouses sel_two) \<and> warehouses sel_two \<noteq> [] \<and>
   base_filters sel_two ! 2 = ''WAREHOUSE_NAME IN (%(wh_0)s, %(wh_1)s)'' \<and>
   map_of (params sel_two) ''wh_0'' = Some ''LOAD_WH'' \<and>
   map_of (params sel_two) ''wh_1'' = Some ''BI_WH''"
proof -
  have a: "''ALL'' \<in> set (warehouses sel_all)" by (simp add: sel_all_def)
  have u: "user_filter sel_all = []" "query_tag sel_all \<noteq> []" by (simp_all add: sel_all_def)
  have b: "''ALL'' \<notin> set (warehouses sel_two) \<and> warehouses sel_two \<noteq> []"
    by (simp add: sel_two_def)
  have l: "length (warehouses sel_two) = 2" by (simp add: sel_two_def)
  have k: "wh_key 0 = ''wh_0''" "wh_key 1 = ''wh_1''" "wh_key (Suc 0) = ''wh_1''"
    by (simp_all add: wh_key_def str_nat_small digit_def)
  have n: "warehouses sel_two ! 0 = ''LOAD_WH''" "warehouses sel_two ! 1 = ''BI_WH''"
    by (simp_all add: sel_two_def)
  note t = all_sentinel_lifts_warehouse_restriction
  from t [of sel_all] a u
  have 1: "base_filters sel_all =
     [''START_TIME >= %(start_ts)s'', ''START_TIME <= %(end_ts)s'', ''QUERY_TAG = %(query_tag)s'']"
    and 2: "wh_filter_sql sel_all = []" by simp_all
  from t [of sel_two] b l
  have 3: "base_filters sel_two ! 2 = ''WAREHOUSE_NAME IN (%(wh_0)s, %(wh_1)s)''"
    by (simp add: upt_rec k placeholder_def)
  from t [of sel_two] b l
  have "\<forall>i < 2. map_of (params sel_two) (wh_key i) = Some (warehouses sel_two ! i)" by simp
  then have "map_of (params sel_two) (wh_key 0) = Some (warehouses sel_two ! 0)"
    and "map_of (params sel_two) (wh_key 1) = Some (warehouses sel_two ! 1)" by simp_all
  with k n have 4: "map_of (params sel_two) ''wh_0'' = Some ''LOAD_WH''"
    "map_of (params sel_two) ''wh_1'' = Some ''BI_WH''" by simp_all
  from a b 1 2 3 4 show ?thesis by simp
qed

subsection \<open>Free-text filters\<close>

text \<open>
  Claim C3 as stated fails on a whitespace-only input: the script tests the text inputs
  for truthiness and never strips them, so a single blank as user and two blanks as tag
  each add their equality clause, bound to the blanks.
\<close>

theorem blank_text_counterexample:
  "user_filter sel_blank = '' '' \<and> query_tag sel_blank = ''  '' \<and>
   base_where sel_blank =
     ''START_TIME >= %(start_ts)s AND START_TIME <= %(end_ts)s AND USER_NAME = %(user_name)s AND QUERY_TAG = %(query_tag)s'' \<and>
   map_of (params sel_blank) ''user_name'' = Some '' '' \<and>
   map_of (params sel_blank) ''query_tag'' = Some ''  ''"
  by (simp add: base_where_def base_filters_closed params_closed sel_blank_def wh_restricted_def)

text \<open>
  Claim C3, amended. An empty user or tag text adds no clause, no placeholder and no
  binding for that dimension; every non-empty text, a whitespace-only one included, adds
  the equality clause with the text bound exactly as typed.
\<close>

theorem empty_text_adds_no_clause:
  "(user_filter s = [] \<longrightarrow>
      ''USER_NAME = %(user_name)s'' \<notin> set (base_filters s) \<and>
      ''user_name'' \<notin> set (placeholders (base_where s)) \<and>
      map_of (params s) ''user_name'' = None) \<and>
   (user_filter s \<noteq> [] \<longrightarrow>
      ''USER_NAME = %(user_name)s'' \<in> set (base_filters s) \<and>
      map_of (params s) ''user_name'' = Some (user_filter s)) \<and>
   (query_tag s = [] \<longrightarrow>
      ''QUERY_TAG = %(query_tag)s'' \<notin> set (base_filters s) \<and>
      ''query_tag'' \<notin> set (placeholders (base_where s)) \<and>
      map_of (params s) ''query_tag'' = None) \<and>
   (query_tag s \<noteq> [] \<longrightarrow>
      ''QUERY_TAG = %(query_tag)s'' \<in> set (base_filters s) \<and>
      map_of (params s) ''query_tag'' = Some (query_tag s))"
proof -
  have keys: "set (placeholders (base_where s)) = fst ` set (params s)"
    by (simp add: placeholders_base_where)
  have nowh: "\<And>k. k = ''user_name'' \<or> k = ''query_tag'' \<Longrightarrow> k \<notin> fst ` set (wh_bindings (warehouses s))"
    using wh_key_neq by (auto simp: wh_bindings_def)
  have u0: "user_filter s = [] \<Longrightarrow> ''user_name'' \<notin> fst ` set (params s)"
    using nowh by (auto simp: params_closed)
  have q0: "query_tag s = [] \<Longrightarrow> ''query_tag'' \<notin> fst ` set (params s)"
    using nowh by (auto simp: params_closed)
  have u1: "user_filter s \<noteq> [] \<Longrightarrow> map_of (params s) ''user_name'' = Some (user_filter s)"
    by (rule map_of_is_SomeI [OF params_keys_distinct]) (simp add: params_closed)
  have q1: "query_tag s \<noteq> [] \<Longrightarrow> map_of (params s) ''query_tag'' = Some (query_tag s)"
    by (rule map_of_is_SomeI [OF params_keys_distinct]) (simp add: params_closed)
  show ?thesis
    using u0 q0 u1 q1 keys
    by (auto simp: base_filters_closed map_of_eq_None_iff)
qed

theorem empty_text_adds_no_clause_witness:
  "user_filter sel_all = [] \<and> ''USER_NAME = %(user_name)s'' \<notin> set (base_filters sel_all) \<and>
   map_of (params sel_all) ''user_name'' = None \<and>
   query_tag sel_all \<noteq> [] \<and> map_of (params sel_all) ''query_tag'' = Some ''nightly'' \<and>
   user_filter sel_blank \<noteq> [] \<and> map_of (params sel_blank) ''user_name'' = Some '' ''"
proof -
  have a: "user_filter sel_all = []" "query_tag sel_all = ''nightly''" by (simp_all add: sel_all_def)
  have b: "user_filter sel_blank = '' ''" by (simp add: sel_blank_def)
  from empty_text_adds_no_clause [of sel_all] a empty_text_adds_no_clause [of sel_blank] b
  show ?thesis by simp
qed

section \<open>Properties of the SQL statements\<close>

subsection \<open>Ordering\<close>

lemma mset_insert_by: "mset (insert_by ahead x ys) = add_mset x (mset ys)"
  by (induction ys) auto

lemma mset_order_by: "mset (order_by ahead rs) = mset rs"
  unfolding order_by_def by (induction rs) (auto simp: mset_insert_by)

lemma set_order_by: "set (order_by ahead rs) = set rs"
  by (metis mset_order_by set_mset_mset)

lemma length_order_by: "length (order_by ahead rs) = length rs"
  by (metis mset_order_by size_mset)

lemma set_insert_by: "set (insert_by ahead x ys) = insert x (set ys)"
  by (induction ys) auto

lemma sorted_insert_by:
  assumes total: "\<And>a b. ahead a b \<or> ahead b a"
    and trans: "\<And>a b c. ahead a b \<Longrightarrow> ahead b c \<Longrightarrow> ahead a c"
  shows "sorted_wrt ahead ys \<Longrightarrow> sorted_wrt ahead (insert_by ahead x ys)"
proof (induction ys)
  case Nil
  show ?case by simp
next
  case (Cons y ys)
  show ?case
  proof (cases "ahead x y")
    case True
    with Cons.prems trans show ?thesis by auto
  next
    case False
    with total have "ahead y x" by blast
    with Cons False show ?thesis by (auto simp: set_insert_by)
  qed
qed

lemma sorted_order_by:
  assumes "\<And>a b. ahead a b \<or> ahead b a"
    and "\<And>a b c. ahead a b \<Longrightarrow> ahead b c \<Longrightarrow> ahead a c"
  shows "sorted_wrt ahead (order_by ahead rs)"
  unfolding order_by_def
  by (induction rs) (simp_all add: sorted_insert_by [OF assms])

lemma sorted_wrt_take_prefix: "sorted_wrt P xs \<Longrightarrow> sorted_wrt P (take n xs)"
  by (metis append_take_drop_id sorted_wrt_append)

lemma desc_nulls_first_total: "desc_nulls_first a b \<or> desc_nulls_first b a"
  by (cases a; cases b) auto

lemma desc_nulls_first_trans:
  "desc_nulls_first a b \<Longrightarrow> desc_nulls_first b c \<Longrightarrow> desc_nulls_first a c"
  by (cases a; cases b; cases c) auto

lemma desc_nulls_first_None: "desc_nulls_first a None \<Longrightarrow> a = None"
  by (cases a) auto


subsection \<open>Raw query history\<close>

text \<open>
  Claim C10. Whatever rows match the filter, the raw history view returns the first 500
  of them in descending order of start time: never more than 500 rows, all 500 when
  more match, each a matching row, and sorted by \<^verbatim>\<open>START_TIME\<close> descending.
\<close>

theorem raw_history_capped_and_ordered:
  "length (raw_sql matches history) = min 500 (length (filter matches history)) \<and>
   length (raw_sql matches history) \<le> 500 \<and>
   sorted_wrt (\<lambda>a b. start_time b \<le> start_time a) (raw_sql matches history) \<and>
   set (raw_sql matches history) \<subseteq> set (filter matches history)"
proof -
  have "sorted_wrt (\<lambda>a b. start_time b \<le> start_time a)
          (order_by (\<lambda>a b. start_time b \<le> start_time a) (filter matches history))"
    by (rule sorted_order_by) auto
  then have "sorted_wrt (\<lambda>a b. start_time b \<le> start_time a) (raw_sql matches history)"
    unfolding raw_sql_def by (rule sorted_wrt_take_prefix)
  moreover have "set (raw_sql matches history) \<subseteq> set (filter matches history)"
    unfolding raw_sql_def using set_take_subset [of 500] by (metis set_order_by)
  ultimately show ?thesis
    by (simp add: raw_sql_def length_order_by)
qed

theorem raw_history_capped_and_ordered_witness:
  "length (raw_sql every_row (replicate 600 (example_query ''q-100'' 36005 100))) = 500 \<and>
   map query_id (raw_sql every_row (example_history @ idle_history)) = [''q-0'', ''q-300'', ''q-100''] \<and>
   sorted_wrt (\<lambda>a b. start_time b \<le> start_time a) (raw_sql every_row (example_history @ idle_history))"
proof -
  have f: "filter every_row xs = xs" for xs :: "query_history_row list"
    by (simp add: every_row_def)
  from raw_history_capped_and_ordered [of every_row "replicate 600 (example_query ''q-100'' 36005 100)"]
  have 1: "length (raw_sql every_row (replicate 600 (example_query ''q-100'' 36005 100))) = 500"
    by (simp add: f)
  have 2: "map query_id (raw_sql every_row (example_history @ idle_history)) = [''q-0'', ''q-300'', ''q-100'']"
    by (simp add: raw_sql_def every_row_def order_by_def example_history_def idle_history_def example_query_def)
  from raw_history_capped_and_ordered [of every_row "example_history @ idle_history"]
  have 3: "sorted_wrt (\<lambda>a b. start_time b \<le> start_time a) (raw_sql every_row (example_history @ idle_history))"
    by blast
  from 1 2 3 show ?thesis by blast
qed

subsection \<open>Grouping and joins\<close>

lemma group_sum_keys: "map fst (group_sum key val rs) = remdups (map key rs)"
  by (simp add: group_sum_def comp_def)

lemma map_of_tabulate:
  "map_of (map (\<lambda>k. (k, f k)) ks) k = (if k \<in> set ks then Some (f k) else None)"
  by (induction ks) auto

lemma map_of_group_sum:
  "map_of (group_sum key val rs) k =
     (if k \<in> set (map key rs)
      then Some (sum_list (map val (filter (\<lambda>r. key r = k) rs))) else None)"
  unfolding group_sum_def
  using map_of_tabulate [of "\<lambda>k. sum_list (map val (filter (\<lambda>r. key r = k) rs))" "remdups (map key rs)" k]
  by simp

lemma filter_by_key:
  "distinct (map fst xs) \<Longrightarrow>
   filter (\<lambda>t. fst t = k) xs = (case map_of xs k of None \<Rightarrow> [] | Some v \<Rightarrow> [(k, v)])"
proof (induction xs)
  case Nil
  show ?case by simp
next
  case (Cons x xs)
  obtain a b where x: "x = (a, b)" by (cases x)
  show ?case
  proof (cases "a = k")
    case True
    with Cons.prems x have "k \<notin> fst ` set xs" by auto
    then have "filter (\<lambda>t. fst t = k) xs = []" by (auto simp: filter_empty_conv)
    with True x show ?thesis by simp
  next
    case False
    with Cons x show ?thesis by simp
  qed
qed

lemma on_bucket_eq: "snd k \<noteq> None \<Longrightarrow> on_bucket k k' \<longleftrightarrow> k' = k"
  by (auto simp: on_bucket_def prod_eq_iff)

lemma filter_group_sum_bucket:
  assumes "snd k \<noteq> None"
  shows "filter (\<lambda>t. on_bucket k (fst t)) (group_sum key val rs) =
     (case map_of (group_sum key val rs) k of None \<Rightarrow> [] | Some v \<Rightarrow> [(k, v)])"
proof -
  have "filter (\<lambda>t. on_bucket k (fst t)) (group_sum key val rs) =
        filter (\<lambda>t. fst t = k) (group_sum key val rs)"
    using assms by (simp add: on_bucket_eq)
  also have "\<dots> = (case map_of (group_sum key val rs) k of None \<Rightarrow> [] | Some v \<Rightarrow> [(k, v)])"
    by (rule filter_by_key) (simp add: group_sum_keys)
  finally show ?thesis .
qed

lemma left_join_single:
  assumes "\<And>a. a \<in> set as \<Longrightarrow> filter (cond a) bs = (case f a of None \<Rightarrow> [] | Some b \<Rightarrow> [b])"
  shows "left_join cond as bs = map (\<lambda>a. (a, f a)) as"
proof -
  have "(case filter (cond a) bs of [] \<Rightarrow> [(a, None)] | ms \<Rightarrow> map (\<lambda>b. (a, Some b)) ms) = [(a, f a)]"
    if "a \<in> set as" for a
    using assms [OF that] by (cases "f a") simp_all
  then have "left_join cond as bs = concat (map (\<lambda>a. [(a, f a)]) as)"
    unfolding left_join_def by (simp cong: map_cong)
  then show ?thesis by (simp add: concat_map_singleton)
qed

lemma map_result_all_ok:
  "(\<And>x. x \<in> set xs \<Longrightarrow> f x = Inr (g x)) \<Longrightarrow> map_result f xs = Inr (map g xs)"
  by (induction xs) simp_all

lemma q_cte_warehouse: "r \<in> set (q_cte matches history) \<Longrightarrow> snd (q_key r) \<noteq> None"
  by (auto simp: q_cte_def q_key_def)

lemma totals_lookup:
  "r \<in> set q \<Longrightarrow> map_of (totals_cte q) (q_key r) = Some (group_total q (q_key r))"
  by (simp add: totals_cte_def map_of_group_sum group_total_def)

lemma wh_lookup:
  "map_of (wh_cte wh_matches metering) k = bucket_credits (filter wh_matches metering) k"
  by (simp add: wh_cte_def map_of_group_sum bucket_credits_def)

subsection \<open>Fixed-point rounding\<close>

lemma round_half_away_error: "\<bar>of_int (round_half_away x) - x\<bar> \<le> 1 / 2"
proof (cases "0 \<le> x")
  case True
  have "of_int \<lfloor>x + 1 / 2\<rfloor> \<le> x + 1 / 2" "x + 1 / 2 < of_int \<lfloor>x + 1 / 2\<rfloor> + 1"
    by linarith+
  then have "\<bar>of_int \<lfloor>x + 1 / 2\<rfloor> - x\<bar> \<le> 1 / 2" by linarith
  with True show ?thesis by (simp only: round_half_away_def if_True)
next
  case False
  define n where "n = \<lfloor>- x + 1 / 2\<rfloor>"
  have "of_int n \<le> - x + 1 / 2" "- x + 1 / 2 < of_int n + 1"
    unfolding n_def by linarith+
  then have "\<bar>of_int (- n) - x\<bar> \<le> 1 / 2" unfolding of_int_minus by linarith
  with False show ?thesis by (simp only: round_half_away_def if_False n_def)
qed

lemma round_half_away_of_int: "round_half_away (of_int m) = m"
  unfolding round_half_away_def by (auto simp: floor_add_int) linarith+

lemma round_scale_error: "\<bar>round_scale s x - x\<bar> \<le> 1 / (2 * 10 ^ s)"
proof -
  have p: "(0::rat) < 10 ^ s" by simp
  have "round_scale s x - x = (of_int (round_half_away (x * 10 ^ s)) - x * 10 ^ s) / 10 ^ s"
    using p by (simp add: round_scale_def diff_divide_distrib)
  then have "\<bar>round_scale s x - x\<bar> = \<bar>of_int (round_half_away (x * 10 ^ s)) - x * 10 ^ s\<bar> / 10 ^ s"
    using p by (simp add: abs_divide)
  also have "\<dots> \<le> (1 / 2) / 10 ^ s"
    using p round_half_away_error [of "x * 10 ^ s"] by (intro divide_right_mono) simp_all
  finally show ?thesis by simp
qed

lemma round_scale_exact: "round_scale s (of_int m / 10 ^ s) = of_int m / 10 ^ s"
  by (simp add: round_scale_def round_half_away_of_int)

text \<open>The estimate and the exact share of the credits.\<close>

lemma estimate_error:
  "\<bar>round_scale 12 (round_scale 6 x * c) - x * c\<bar> \<le> rounding_bound c"
proof -
  have a: "\<bar>round_scale 12 (round_scale 6 x * c) - round_scale 6 x * c\<bar> \<le> 1 / 2000000000000"
    using round_scale_error [of 12 "round_scale 6 x * c"] by simp
  have "\<bar>round_scale 6 x - x\<bar> \<le> 1 / 2000000"
    using round_scale_error [of 6 x] by simp
  then have "\<bar>round_scale 6 x - x\<bar> * \<bar>c\<bar> \<le> (1 / 2000000) * \<bar>c\<bar>"
    by (rule mult_right_mono) simp
  then have b: "\<bar>round_scale 6 x * c - x * c\<bar> \<le> \<bar>c\<bar> / 2000000"
    by (simp add: abs_mult [symmetric] left_diff_distrib)
  from a b show ?thesis unfolding rounding_bound_def by linarith
qed

lemma estimate_exact:
  assumes "x = of_int m / 10 ^ 6" and "c = of_int n / 10 ^ 6"
  shows "round_scale 12 (round_scale 6 x * c) = x * c"
proof -
  have "x * c = of_int (m * n) / 10 ^ 12"
    unfolding assms by simp
  moreover have "round_scale 6 x = x" unfolding assms(1) by (rule round_scale_exact)
  ultimately show ?thesis by (simp only: round_scale_exact)
qed

subsection \<open>The cost statement in closed form\<close>

lemma cost_select_joined:
  "cost_select ((r, Some (k, t)), map_option (Pair k') c) =
     Inr \<lparr>c_query = r, c_credits_used = c,
          estimated_credits = sql_estimated_credits (total_elapsed_time r) t c\<rparr>"
  by (cases c) (simp_all add: cost_select_def nullif0_def sql_estimated_credits_def)

lemma cost_rows_closed:
  "cost_rows matches wh_matches history metering =
     Inr (map (allocation (q_cte matches history) (filter wh_matches metering))
            (q_cte matches history))"
proof -
  define q where "q = q_cte matches history"
  define ms where "ms = filter wh_matches metering"
  define wh where "wh = wh_cte wh_matches metering"
  define tot where "tot = (\<lambda>r. Some (q_key r, group_total q (q_key r)))"
  define cr where "cr = (\<lambda>j :: query_history_row \<times> (bucket_key \<times> int) option.
      map_option (Pair (q_key (fst j))) (bucket_credits ms (q_key (fst j))))"
  have wn: "snd (q_key r) \<noteq> None" if "r \<in> set q" for r
    using that unfolding q_def by (rule q_cte_warehouse)
  have qt: "left_join (\<lambda>r t. on_bucket (q_key r) (fst t)) q (totals_cte q) = map (\<lambda>r. (r, tot r)) q"
  proof (rule left_join_single)
    fix r assume r: "r \<in> set q"
    have "filter (\<lambda>t. on_bucket (q_key r) (fst t)) (totals_cte q) =
        (case map_of (totals_cte q) (q_key r) of None \<Rightarrow> [] | Some v \<Rightarrow> [(q_key r, v)])"
      unfolding totals_cte_def by (rule filter_group_sum_bucket) (rule wn [OF r])
    with r show "filter (\<lambda>t. on_bucket (q_key r) (fst t)) (totals_cte q) =
        (case tot r of None \<Rightarrow> [] | Some b \<Rightarrow> [b])"
      by (simp add: totals_lookup tot_def)
  qed
  have qtw: "left_join (\<lambda>j w. on_bucket (q_key (fst j)) (fst w)) (map (\<lambda>r. (r, tot r)) q) wh =
      map (\<lambda>j. (j, cr j)) (map (\<lambda>r. (r, tot r)) q)"
  proof (rule left_join_single)
    fix j assume "j \<in> set (map (\<lambda>r. (r, tot r)) q)"
    then have r: "fst j \<in> set q" by auto
    have "filter (\<lambda>w. on_bucket (q_key (fst j)) (fst w)) wh =
        (case map_of wh (q_key (fst j)) of None \<Rightarrow> [] | Some v \<Rightarrow> [(q_key (fst j), v)])"
      unfolding wh_def wh_cte_def by (rule filter_group_sum_bucket) (rule wn [OF r])
    then show "filter (\<lambda>w. on_bucket (q_key (fst j)) (fst w)) wh =
        (case cr j of None \<Rightarrow> [] | Some b \<Rightarrow> [b])"
      by (cases "bucket_credits ms (q_key (fst j))")
         (simp_all add: wh_def wh_lookup cr_def ms_def)
  qed
  have sel: "cost_select ((r, tot r), cr (r, tot r)) = Inr (allocation q ms r)" for r
    unfolding tot_def cr_def by (simp add: cost_select_joined allocation_def)
  have "map_result cost_select (map (\<lambda>r. ((r, tot r), cr (r, tot r))) xs) =
      Inr (map (allocation q ms) xs)" for xs
    by (induction xs) (simp_all add: sel)
  then have "map_result cost_select (map (\<lambda>j. (j, cr j)) (map (\<lambda>r. (r, tot r)) q)) =
      Inr (map (allocation q ms) q)"
    by (simp add: comp_def)
  then show ?thesis
    unfolding cost_rows_def Let_def
    by (simp only: q_def [symmetric] wh_def [symmetric] ms_def [symmetric] qt qtw)
qed

lemma cost_sql_closed:
  "cost_sql matches wh_matches history metering =
     Inr (take 50 (order_by (\<lambda>a b. desc_nulls_first (estimated_credits a) (estimated_credits b))
       (map (allocation (q_cte matches history) (filter wh_matches metering))
            (q_cte matches history))))"
  by (simp add: cost_sql_def cost_rows_closed)

lemma sum_shares:
  "sum_list (map (\<lambda>r. of_int (f r) / T * (c::rat)) rs) = of_int (sum_list (map f rs)) / T * c"
  by (induction rs) (simp_all add: add_divide_distrib distrib_right)

lemma sum_list_error:
  "(\<And>r. r \<in> set rs \<Longrightarrow> \<bar>f r - g r\<bar> \<le> (b::rat)) \<Longrightarrow>
   \<bar>sum_list (map f rs) - sum_list (map g rs)\<bar> \<le> of_nat (length rs) * b"
proof (induction rs)
  case Nil
  show ?case by simp
next
  case (Cons r rs)
  have "\<bar>f r - g r\<bar> \<le> b" by (rule Cons.prems) simp
  moreover have "\<bar>sum_list (map f rs) - sum_list (map g rs)\<bar> \<le> of_nat (length rs) * b"
    by (rule Cons.IH) (simp add: Cons.prems)
  ultimately show ?case by (simp add: distrib_right)
qed

lemma filter_allocation:
  "filter (\<lambda>x. q_key (c_query x) = k) (map (allocation q ms) q) =
     map (allocation q ms) (filter (\<lambda>r. q_key r = k) q)"
  by (simp add: filter_map comp_def allocation_def)

lemma sum_estimates_bucket:
  assumes T: "group_total q k \<noteq> 0" and c: "bucket_credits ms k = Some c"
  shows "\<bar>sum_estimates (filter (\<lambda>x. q_key (c_query x) = k) (map (allocation q ms) q)) - c\<bar>
    \<le> of_nat (length (filter (\<lambda>r. q_key r = k) q)) * rounding_bound c"
proof -
  let ?rs = "filter (\<lambda>r. q_key r = k) q"
  let ?T = "of_int (group_total q k) :: rat"
  let ?est = "\<lambda>r. round_scale 12 (round_scale 6 (of_int (total_elapsed_time r) / ?T) * c)"
  let ?share = "\<lambda>r. of_int (total_elapsed_time r) / ?T * c"
  have "sum_estimates (map (allocation q ms) ?rs) = sum_list (map ?est ?rs)"
    unfolding sum_estimates_def map_map
    by (rule arg_cong [where f = sum_list], rule map_cong)
       (simp_all add: allocation_def sql_estimated_credits_def T c)
  moreover have "sum_list (map ?share ?rs) = c"
    unfolding sum_shares using T by (simp add: group_total_def)
  moreover have "\<bar>sum_list (map ?est ?rs) - sum_list (map ?share ?rs)\<bar>
      \<le> of_nat (length ?rs) * rounding_bound c"
    by (rule sum_list_error) (rule estimate_error)
  ultimately show ?thesis by (simp only: filter_allocation)
qed

lemma round_examples:
  "round_scale 6 (1 / 4) = 1 / 4"
  "round_scale 6 (3 / 4) = 3 / 4"
  "round_scale 6 1 = 1"
  "round_scale 6 (1 / 3) = 333333 / 1000000"
  "round_scale 12 1 = 1"
  "round_scale 12 3 = 3"
  "round_scale 12 4 = 4"
  "round_scale 12 (999999 / 1000000) = 999999 / 1000000"
  by code_simp+

lemma example_keys:
  "q_key (example_query i 36005 e) = (36000, Some ''LOAD_WH'')"
  "q_key (example_query i 37800 e) = (36000, Some ''LOAD_WH'')"
  "q_key (example_query i 39700 e) = (39600, Some ''LOAD_WH'')"
  by (simp_all add: q_key_def example_query_def date_trunc_hour_def)

lemma example_q: "q_cte every_row (example_history @ idle_history) = example_history @ idle_history"
  "q_cte every_row example_history = example_history"
  "q_cte every_row idle_history = idle_history"
  by (simp_all add: q_cte_def every_row_def example_history_def idle_history_def example_query_def)

lemma example_elapsed: "total_elapsed_time (example_query i t e) = e"
  by (simp add: example_query_def)

lemma example_credits:
  "bucket_credits (filter every_row example_metering) (36000, Some ''LOAD_WH'') = Some 4"
  "bucket_credits (filter every_row example_metering) (39600, Some ''LOAD_WH'') = Some 2"
  by (simp_all add: bucket_credits_def every_row_def example_metering_def m_key_def date_trunc_hour_def)

lemma example_allocation:
  "map (allocation example_history (filter every_row example_metering)) example_history =
     [\<lparr>c_query = example_query ''q-100'' 36005 100, c_credits_used = Some 4, estimated_credits = Some 1\<rparr>,
      \<lparr>c_query = example_query ''q-300'' 37800 300, c_credits_used = Some 4, estimated_credits = Some 3\<rparr>]"
  by (simp add: allocation_def example_history_def example_keys example_credits group_total_def
      example_elapsed sql_estimated_credits_def round_examples)

lemma idle_allocation:
  "map (allocation idle_history (filter every_row example_metering)) idle_history =
     [\<lparr>c_query = example_query ''q-0'' 39700 0, c_credits_used = Some 2, estimated_credits = None\<rparr>]"
  by (simp add: allocation_def idle_history_def example_keys example_credits group_total_def
      example_elapsed sql_estimated_credits_def round_examples)


lemma mixed_allocation:
  "map (allocation (example_history @ idle_history) (filter every_row example_metering))
       (example_history @ idle_history) =
     [\<lparr>c_query = example_query ''q-100'' 36005 100, c_credits_used = Some 4, estimated_credits = Some 1\<rparr>,
      \<lparr>c_query = example_query ''q-300'' 37800 300, c_credits_used = Some 4, estimated_credits = Some 3\<rparr>,
      \<lparr>c_query = example_query ''q-0'' 39700 0, c_credits_used = Some 2, estimated_credits = None\<rparr>]"
  by (simp add: allocation_def example_history_def idle_history_def example_keys example_credits
      group_total_def example_elapsed sql_estimated_credits_def round_examples)



lemma thirds_known:
  "q_cte every_row thirds_history = thirds_history"
  "group_total thirds_history (36000, Some ''LOAD_WH'') = 3"
  "bucket_credits (filter every_row thirds_metering) (36000, Some ''LOAD_WH'') = Some 3"
  by (simp_all add: q_cte_def every_row_def thirds_history_def example_query_def
      group_total_def q_key_def date_trunc_hour_def bucket_credits_def thirds_metering_def m_key_def)

lemma thirds_allocation:
  "map (allocation thirds_history (filter every_row thirds_metering)) thirds_history =
     [\<lparr>c_query = example_query ''q-a'' 36005 1, c_credits_used = Some 3,
       estimated_credits = Some (999999 / 1000000)\<rparr>,
      \<lparr>c_query = example_query ''q-b'' 37800 1, c_credits_used = Some 3,
       estimated_credits = Some (999999 / 1000000)\<rparr>,
      \<lparr>c_query = example_query ''q-c'' 37800 1, c_credits_used = Some 3,
       estimated_credits = Some (999999 / 1000000)\<rparr>]"
  by (simp add: allocation_def thirds_history_def example_keys thirds_known [unfolded thirds_history_def]
      example_elapsed sql_estimated_credits_def round_examples)

subsection \<open>Proportional allocation\<close>

text \<open>
  Claim C5 as stated fails on the statement's arithmetic: the share is a quotient of two
  \<^verbatim>\<open>NUMBER(38,0)\<close> values and is rounded to 6 decimals before it is multiplied. Three
  queries of 1 ms in a bucket of 3 credits are each given 0.999999 credits, not the
  1 credit that elapsed / total * credits asks for, and their estimates add up to
  2.999997, not to 3.
\<close>

theorem exact_share_counterexample:
  "cost_rows every_row every_row thirds_history thirds_metering =
     Inr [\<lparr>c_query = example_query ''q-a'' 36005 1, c_credits_used = Some 3,
           estimated_credits = Some (999999 / 1000000)\<rparr>,
          \<lparr>c_query = example_query ''q-b'' 37800 1, c_credits_used = Some 3,
           estimated_credits = Some (999999 / 1000000)\<rparr>,
          \<lparr>c_query = example_query ''q-c'' 37800 1, c_credits_used = Some 3,
           estimated_credits = Some (999999 / 1000000)\<rparr>] \<and>
   group_total thirds_history (36000, Some ''LOAD_WH'') = 3 \<and>
   bucket_credits (filter every_row thirds_metering) (36000, Some ''LOAD_WH'') = Some 3 \<and>
   spec_estimated_credits 1 3 (Some 3) = Some 1 \<and>
   sum_estimates
     (map (allocation thirds_history (filter every_row thirds_metering)) thirds_history) =
     2999997 / 1000000"
proof -
  have "cost_rows every_row every_row thirds_history thirds_metering =
     Inr (map (allocation thirds_history (filter every_row thirds_metering)) thirds_history)"
    by (simp only: cost_rows_closed thirds_known)
  moreover have "spec_estimated_credits 1 3 (Some 3) = Some 1"
    by (simp add: spec_estimated_credits_def)
  moreover have "sum_estimates
     (map (allocation thirds_history (filter every_row thirds_metering)) thirds_history) =
     2999997 / 1000000"
    by (simp only: thirds_allocation) (simp add: sum_estimates_def)
  ultimately show ?thesis by (simp only: thirds_allocation thirds_known)
qed

text \<open>
  Claim C5, amended. Before \<^verbatim>\<open>ORDER BY\<close> and \<^verbatim>\<open>LIMIT\<close> the cost statement has one
  row per query of \<open>q\<close>. A query whose bucket has a nonzero total elapsed time and
  metered credits \<open>c\<close> is given the share elapsed / total rounded to 6 decimals, times
  \<open>c\<close>, rounded to 12 decimals. That estimate is within \<open>rounding_bound c\<close> of
  elapsed / total * \<open>c\<close>, and equal to it when the share and the credits have at most 6
  decimals each, as in the example of 100 ms and 300 ms with 4 credits (1 and 3). The
  estimates of a bucket of \<open>n\<close> queries add up to \<open>c\<close> within \<open>n\<close> times that bound.
  The statement returns rows of this allocation only, and all of them when there are at
  most 50.
\<close>

theorem rounded_proportional_allocation:
  fixes matches wh_matches history metering
  defines "q \<equiv> q_cte matches history" and "ms \<equiv> filter wh_matches metering"
  shows
  "cost_rows matches wh_matches history metering = Inr (map (allocation q ms) q) \<and>
   (\<forall>r \<in> set q. \<forall>c.
      group_total q (q_key r) \<noteq> 0 \<and> bucket_credits ms (q_key r) = Some c \<longrightarrow>
      estimated_credits (allocation q ms r) =
        Some (round_scale 12
          (round_scale 6 (rat_of_int (total_elapsed_time r) / rat_of_int (group_total q (q_key r))) * c)) \<and>
      (\<exists>x. estimated_credits (allocation q ms r) = Some x \<and>
         \<bar>x - rat_of_int (total_elapsed_time r) / rat_of_int (group_total q (q_key r)) * c\<bar>
           \<le> rounding_bound c) \<and>
      ((\<exists>m n. rat_of_int (total_elapsed_time r) / rat_of_int (group_total q (q_key r)) = of_int m / 10 ^ 6 \<and>
              c = of_int n / 10 ^ 6) \<longrightarrow>
       estimated_credits (allocation q ms r) =
         Some (rat_of_int (total_elapsed_time r) / rat_of_int (group_total q (q_key r)) * c))) \<and>
   (\<forall>k c.
      group_total q k \<noteq> 0 \<and> bucket_credits ms k = Some c \<longrightarrow>
      \<bar>sum_estimates (filter (\<lambda>x. q_key (c_query x) = k) (map (allocation q ms) q)) - c\<bar>
        \<le> of_nat (length (filter (\<lambda>r. q_key r = k) q)) * rounding_bound c) \<and>
   (\<exists>out.
      cost_sql matches wh_matches history metering = Inr out \<and>
      set out \<subseteq> set (map (allocation q ms) q) \<and>
      (length q \<le> 50 \<longrightarrow> mset out = mset (map (allocation q ms) q)))"
proof -
  let ?rows = "map (allocation q ms) q"
  let ?out = "take 50 (order_by
       (\<lambda>a b. desc_nulls_first (estimated_credits a) (estimated_credits b)) ?rows)"
  have 1: "cost_rows matches wh_matches history metering = Inr ?rows"
    unfolding q_def ms_def by (rule cost_rows_closed)
  have 2: "\<forall>r \<in> set q. \<forall>c.
      group_total q (q_key r) \<noteq> 0 \<and> bucket_credits ms (q_key r) = Some c \<longrightarrow>
      estimated_credits (allocation q ms r) =
        Some (round_scale 12
          (round_scale 6 (rat_of_int (total_elapsed_time r) / rat_of_int (group_total q (q_key r))) * c)) \<and>
      (\<exists>x. estimated_credits (allocation q ms r) = Some x \<and>
         \<bar>x - rat_of_int (total_elapsed_time r) / rat_of_int (group_total q (q_key r)) * c\<bar>
           \<le> rounding_bound c) \<and>
      ((\<exists>m n. rat_of_int (total_elapsed_time r) / rat_of_int (group_total q (q_key r)) = of_int m / 10 ^ 6 \<and>
              c = of_int n / 10 ^ 6) \<longrightarrow>
       estimated_credits (allocation q ms r) =
         Some (rat_of_int (total_elapsed_time r) / rat_of_int (group_total q (q_key r)) * c))"
  proof (intro ballI allI impI)
    fix r c
    assume a: "group_total q (q_key r) \<noteq> 0 \<and> bucket_credits ms (q_key r) = Some c"
    let ?share = "rat_of_int (total_elapsed_time r) / rat_of_int (group_total q (q_key r))"
    from a have e: "estimated_credits (allocation q ms r) =
        Some (round_scale 12 (round_scale 6 ?share * c))"
      by (simp add: allocation_def sql_estimated_credits_def)
    have b: "\<bar>round_scale 12 (round_scale 6 ?share * c) - ?share * c\<bar> \<le> rounding_bound c"
      by (rule estimate_error)
    have x: "(\<exists>m n. ?share = of_int m / 10 ^ 6 \<and> c = of_int n / 10 ^ 6) \<longrightarrow>
       estimated_credits (allocation q ms r) = Some (?share * c)"
    proof
      assume "\<exists>m n. ?share = of_int m / 10 ^ 6 \<and> c = of_int n / 10 ^ 6"
      then obtain m n where "?share = of_int m / 10 ^ 6" "c = of_int n / 10 ^ 6" by blast
      then have "round_scale 12 (round_scale 6 ?share * c) = ?share * c"
        by (rule estimate_exact)
      with e show "estimated_credits (allocation q ms r) = Some (?share * c)" by simp
    qed
    from e b x show "estimated_credits (allocation q ms r) =
        Some (round_scale 12 (round_scale 6 ?share * c)) \<and>
      (\<exists>x. estimated_credits (allocation q ms r) = Some x \<and> \<bar>x - ?share * c\<bar> \<le> rounding_bound c) \<and>
      ((\<exists>m n. ?share = of_int m / 10 ^ 6 \<and> c = of_int n / 10 ^ 6) \<longrightarrow>
       estimated_credits (allocation q ms r) = Some (?share * c))"
      by blast
  qed
  have 3: "\<forall>k c.
      group_total q k \<noteq> 0 \<and> bucket_credits ms k = Some c \<longrightarrow>
      \<bar>sum_estimates (filter (\<lambda>x. q_key (c_query x) = k) ?rows) - c\<bar>
        \<le> of_nat (length (filter (\<lambda>r. q_key r = k) q)) * rounding_bound c"
    using sum_estimates_bucket by blast
  have o: "cost_sql matches wh_matches history metering = Inr ?out"
    unfolding q_def ms_def by (rule cost_sql_closed)
  have sub: "set ?out \<subseteq> set ?rows"
    using set_take_subset [of 50] by (metis set_order_by)
  have all: "length q \<le> 50 \<longrightarrow> mset ?out = mset ?rows"
    by (simp add: length_order_by mset_order_by)
  from o sub all have 4: "\<exists>out.
      cost_sql matches wh_matches history metering = Inr out \<and>
      set out \<subseteq> set ?rows \<and> (length q \<le> 50 \<longrightarrow> mset out = mset ?rows)"
    by blast
  from 1 2 3 4 show ?thesis by (intro conjI)
qed

theorem rounded_proportional_allocation_witness:
  "cost_rows every_row every_row example_history example_metering =
     Inr [\<lparr>c_query = example_query ''q-100'' 36005 100, c_credits_used = Some 4,
           estimated_credits = Some 1\<rparr>,
          \<lparr>c_query = example_query ''q-300'' 37800 300, c_credits_used = Some 4,
           estimated_credits = Some 3\<rparr>] \<and>
   group_total example_history (36000, Some ''LOAD_WH'') = 400 \<and>
   estimated_credits (allocation example_history (filter every_row example_metering)
     (example_query ''q-100'' 36005 100)) = Some (100 / 400 * 4) \<and>
   \<bar>sum_estimates (filter (\<lambda>x. q_key (c_query x) = (36000, Some ''LOAD_WH''))
       (map (allocation example_history (filter every_row example_metering)) example_history)) - 4\<bar>
     \<le> 2 * rounding_bound 4"
proof -
  note t = rounded_proportional_allocation [where matches = every_row and history = example_history
      and wh_matches = every_row and metering = example_metering, unfolded example_q]
  let ?ms = "filter every_row example_metering"
  let ?r = "example_query ''q-100'' 36005 100"
  have g: "group_total example_history (36000, Some ''LOAD_WH'') = 400"
    by (simp add: group_total_def example_history_def example_keys example_elapsed)
  have n: "length (filter (\<lambda>r. q_key r = (36000, Some ''LOAD_WH'')) example_history) = 2"
    by (simp add: example_history_def example_keys)
  from t have "cost_rows every_row every_row example_history example_metering =
     Inr (map (allocation example_history ?ms) example_history)"
    by (rule conjunct1)
  then have rows: "cost_rows every_row every_row example_history example_metering =
     Inr [\<lparr>c_query = example_query ''q-100'' 36005 100, c_credits_used = Some 4,
           estimated_credits = Some 1\<rparr>,
          \<lparr>c_query = example_query ''q-300'' 37800 300, c_credits_used = Some 4,
           estimated_credits = Some 3\<rparr>]"
    by (simp only: example_allocation)
  have r: "?r \<in> set example_history" by (simp add: example_history_def)
  have k: "q_key ?r = (36000, Some ''LOAD_WH'')" by (rule example_keys)
  have hyp: "group_total example_history (q_key ?r) \<noteq> 0 \<and> bucket_credits ?ms (q_key ?r) = Some 4"
    by (simp add: k g example_credits)
  have rep: "\<exists>m n. rat_of_int (total_elapsed_time ?r) / rat_of_int (group_total example_history (q_key ?r))
        = of_int m / 10 ^ 6 \<and> (4::rat) = of_int n / 10 ^ 6"
  proof (intro exI conjI)
    show "rat_of_int (total_elapsed_time ?r) / rat_of_int (group_total example_history (q_key ?r))
        = of_int 250000 / 10 ^ 6"
      by (simp add: k g example_elapsed)
    show "(4::rat) = of_int 4000000 / 10 ^ 6" by simp
  qed
  from t r hyp rep have "estimated_credits (allocation example_history ?ms ?r) =
      Some (rat_of_int (total_elapsed_time ?r) / rat_of_int (group_total example_history (q_key ?r)) * 4)"
    by blast
  then have exact: "estimated_credits (allocation example_history ?ms ?r) = Some (100 / 400 * 4)"
    by (simp add: k g example_elapsed)
  from t have "group_total example_history (36000, Some ''LOAD_WH'') \<noteq> 0 \<and>
      bucket_credits ?ms (36000, Some ''LOAD_WH'') = Some 4 \<longrightarrow>
      \<bar>sum_estimates (filter (\<lambda>x. q_key (c_query x) = (36000, Some ''LOAD_WH''))
        (map (allocation example_history ?ms) example_history)) - 4\<bar>
      \<le> of_nat (length (filter (\<lambda>r. q_key r = (36000, Some ''LOAD_WH'')) example_history))
          * rounding_bound 4"
    by blast
  then have sum: "\<bar>sum_estimates (filter (\<lambda>x. q_key (c_query x) = (36000, Some ''LOAD_WH''))
        (map (allocation example_history ?ms) example_history)) - 4\<bar> \<le> 2 * rounding_bound 4"
    by (simp only: g example_credits n) simp
  from rows g exact sum show ?thesis by blast
qed

subsection \<open>Zero total elapsed time\<close>

text \<open>
  Claim C6. The cost statement returns rows on every input: the division never sees a
  zero divisor, because \<^verbatim>\<open>NULLIF\<close> has turned it into NULL. Every row whose bucket has
  total elapsed time 0 has a NULL estimate. An estimate is NULL or a rational number;
  there is no other value.
\<close>

theorem zero_total_leaves_estimate_undefined:
  fixes matches wh_matches history metering
  defines "q \<equiv> q_cte matches history" and "ms \<equiv> filter wh_matches metering"
  shows
  "(\<exists>rows out.
      cost_rows matches wh_matches history metering = Inr rows \<and>
      cost_sql matches wh_matches history metering = Inr out \<and>
      map c_query rows = q \<and>
      set out \<subseteq> set rows \<and>
      (\<forall>x \<in> set rows.
         group_total q (q_key (c_query x)) = 0 \<longrightarrow> estimated_credits x = None))"
proof -
  let ?rows = "map (allocation q ms) q"
  let ?out = "take 50 (order_by
       (\<lambda>a b. desc_nulls_first (estimated_credits a) (estimated_credits b)) ?rows)"
  have 1: "cost_rows matches wh_matches history metering = Inr ?rows"
    unfolding q_def ms_def by (rule cost_rows_closed)
  have 2: "cost_sql matches wh_matches history metering = Inr ?out"
    unfolding q_def ms_def by (rule cost_sql_closed)
  have 3: "map c_query ?rows = q"
    by (simp add: comp_def allocation_def)
  have 4: "set ?out \<subseteq> set ?rows"
    using set_take_subset [of 50] by (metis set_order_by)
  have 5: "\<forall>x \<in> set ?rows. group_total q (q_key (c_query x)) = 0 \<longrightarrow> estimated_credits x = None"
    by (auto simp: allocation_def sql_estimated_credits_def)
  from 1 2 3 4 5 show ?thesis by blast
qed

theorem zero_total_leaves_estimate_undefined_witness:
  "group_total idle_history (q_key (example_query ''q-0'' 39700 0)) = 0 \<and>
   map_sum id (map estimated_credits)
     (cost_rows every_row every_row idle_history example_metering) = Inr [None] \<and>
   cost_sql every_row every_row idle_history example_metering =
     Inr [\<lparr>c_query = example_query ''q-0'' 39700 0, c_credits_used = Some 2,
           estimated_credits = None\<rparr>]"
proof -
  have g: "group_total idle_history (q_key (example_query ''q-0'' 39700 0)) = 0"
    by (simp add: group_total_def idle_history_def example_keys example_elapsed)
  from zero_total_leaves_estimate_undefined [where matches = every_row
      and history = idle_history and wh_matches = every_row and metering = example_metering]
  obtain rows out where r: "cost_rows every_row every_row idle_history example_metering = Inr rows"
    and m: "map c_query rows = q_cte every_row idle_history"
    and z: "\<forall>x \<in> set rows.
         group_total (q_cte every_row idle_history) (q_key (c_query x)) = 0 \<longrightarrow>
         estimated_credits x = None"
    by blast
  from m have "map c_query rows = idle_history"
    by (simp only: example_q)
  then have "map c_query rows = [example_query ''q-0'' 39700 0]"
    by (simp only: idle_history_def)
  then obtain x where x: "rows = [x]" "c_query x = example_query ''q-0'' 39700 0"
    by (cases rows) auto
  with z g have "estimated_credits x = None" by (simp add: example_q)
  with r x have e: "map_sum id (map estimated_credits)
     (cost_rows every_row every_row idle_history example_metering) = Inr [None]"
    by simp
  have "cost_sql every_row every_row idle_history example_metering =
     Inr [\<lparr>c_query = example_query ''q-0'' 39700 0, c_credits_used = Some 2,
           estimated_credits = None\<rparr>]"
    by (simp only: cost_sql_closed example_q idle_allocation) (simp add: order_by_def)
  with g e show ?thesis by blast
qed


subsection \<open>Order and size of the cost result\<close>

text \<open>
  Claim C7. The statement ends in \<^verbatim>\<open>ORDER BY ESTIMATED_CREDITS DESC LIMIT 50\<close> to show
  the fifty most expensive queries, and has no \<^verbatim>\<open>NULLS LAST\<close>: the rows with an
  undefined estimate come first and take the places of the costly ones. With one query
  that is given 4 credits and fifty queries of 0 ms, the fifty rows returned are those
  with the undefined estimate, and the query with 4 credits is not among them.
\<close>

theorem null_estimates_crowd_out_costly_query:
  "estimated_credits
     (allocation (q_cte every_row crowded_history) (filter every_row example_metering)
        (example_query ''q-cost'' 36005 100)) = Some 4 \<and>
   cost_sql every_row every_row crowded_history example_metering =
     Inr (replicate 50 \<lparr>c_query = example_query ''q-0'' 39700 0, c_credits_used = Some 2,
                          estimated_credits = None\<rparr>)"
  by code_simp

text \<open>
  The same on three rows: the undefined estimate stands in front of 3 and 1, which is
  not a descending order with the undefined values last.
\<close>

lemma undefined_estimates_sort_first:
  "map_sum id (map (\<lambda>x. (query_id (c_query x), estimated_credits x)))
     (cost_sql every_row every_row (example_history @ idle_history) example_metering) =
     Inr [(''q-0'', None), (''q-300'', Some 3), (''q-100'', Some 1)] \<and>
   \<not> sorted_wrt desc_nulls_last [None, Some 3, Some (1::rat)]"
  by (simp only: cost_sql_closed example_q mixed_allocation)
     (simp add: order_by_def example_query_def)

text \<open>
  On every input the result has at most 50 rows, the rows with an undefined estimate in
  front of all others, and the defined estimates descending after them.
\<close>

lemma cost_sql_nulls_first:
  "\<exists>out.
     cost_sql matches wh_matches history metering = Inr out \<and>
     length out \<le> 50 \<and>
     sorted_wrt (\<lambda>a b. desc_nulls_first (estimated_credits a) (estimated_credits b)) out \<and>
     (\<forall>i j. i < j \<and> j < length out \<and> estimated_credits (out ! j) = None \<longrightarrow>
        estimated_credits (out ! i) = None) \<and>
     (\<forall>i j x y. i < j \<and> j < length out \<and>
        estimated_credits (out ! i) = Some x \<and> estimated_credits (out ! j) = Some y \<longrightarrow> y \<le> x)"
proof -
  let ?ahead = "\<lambda>a b :: cost_row. desc_nulls_first (estimated_credits a) (estimated_credits b)"
  let ?rows = "map (allocation (q_cte matches history) (filter wh_matches metering))
            (q_cte matches history)"
  let ?out = "take 50 (order_by ?ahead ?rows)"
  have o: "cost_sql matches wh_matches history metering = Inr ?out"
    by (rule cost_sql_closed)
  have "sorted_wrt ?ahead (order_by ?ahead ?rows)"
    by (rule sorted_order_by) (use desc_nulls_first_total desc_nulls_first_trans in blast)+
  then have s: "sorted_wrt ?ahead ?out" by (rule sorted_wrt_take_prefix)
  then have nth: "?ahead (?out ! i) (?out ! j)" if "i < j" "j < length ?out" for i j
    using that by (simp only: sorted_wrt_iff_nth_less)
  have n: "\<forall>i j. i < j \<and> j < length ?out \<and> estimated_credits (?out ! j) = None \<longrightarrow>
        estimated_credits (?out ! i) = None"
  proof (intro allI impI)
    fix i j
    assume a: "i < j \<and> j < length ?out \<and> estimated_credits (?out ! j) = None"
    then have "?ahead (?out ! i) (?out ! j)" using nth by blast
    with a show "estimated_credits (?out ! i) = None"
      using desc_nulls_first_None by metis
  qed
  have d: "\<forall>i j x y. i < j \<and> j < length ?out \<and>
        estimated_credits (?out ! i) = Some x \<and> estimated_credits (?out ! j) = Some y \<longrightarrow> y \<le> x"
  proof (intro allI impI)
    fix i j x y
    assume a: "i < j \<and> j < length ?out \<and>
        estimated_credits (?out ! i) = Some x \<and> estimated_credits (?out ! j) = Some y"
    then have "?ahead (?out ! i) (?out ! j)" using nth by blast
    with a show "y \<le> x" by (metis desc_nulls_first.simps(3))
  qed
  have l: "length ?out \<le> 50" by simp
  from o l s n d show ?thesis by blast
qed

section \<open>Properties of the live view\<close>

subsection \<open>The privileged path\<close>

lemma run_show_queries_cases:
  "run_show_queries sf w =
     (case first_failure sf w of
        None \<Rightarrow> ([Show_queries w, Result_scan, Fetch_pandas_all, Cursor_close], fetched sf)
      | Some e \<Rightarrow>
          on_exception
            (if show_queries sf w \<noteq> None then [Show_queries w]
             else if result_scan sf \<noteq> None then [Show_queries w, Result_scan]
             else [Show_queries w, Result_scan, Fetch_pandas_all]) e)"
  by (auto simp: run_show_queries_def first_failure_def split: option.splits sum.splits)

lemma show_queries_first: "\<exists>evs. fst (run_show_queries sf w) = Show_queries w # evs"
  by (auto simp: run_show_queries_def on_exception_def split: option.splits sum.splits exn.splits)

lemma run_show_queries_queries:
  "Show_queries w' \<in> set (fst (run_show_queries sf w)) \<longleftrightarrow> w' = w"
  "Fallback_query w' n \<notin> set (fst (run_show_queries sf w))"
  by (auto simp: run_show_queries_def on_exception_def split: option.splits sum.splits exn.splits)

lemma last_close: "last (fst (run_show_queries sf w)) = Cursor_close"
  by (auto simp: run_show_queries_def on_exception_def split: option.splits sum.splits exn.splits)


text \<open>
  Claim C9 as stated fails for an exception outside \<^verbatim>\<open>ProgrammingError\<close>: when the
  first statement raises an \<^verbatim>\<open>OperationalError\<close>, \<^verbatim>\<open>run_show_queries\<close> closes the
  cursor and the exception reaches its caller; no warning is written.
\<close>

theorem show_live_counterexample:
  "first_failure sf_offline ''LOAD_WH'' = Some (OtherError ''250003: Failed to execute request'') \<and>
   run_show_queries sf_offline ''LOAD_WH'' =
     ([Show_queries ''LOAD_WH'', Cursor_close], Inl (OtherError ''250003: Failed to execute request''))"
  by (simp add: first_failure_def run_show_queries_def on_exception_def sf_offline_def)


text \<open>
  Claim C9, amended. When the privileged introspection fails with a
  \<^verbatim>\<open>ProgrammingError\<close> (insufficient privilege, unsupported statement),
  \<^verbatim>\<open>run_show_queries\<close> does not raise: it returns the empty frame, and writes the warning
  and a caption with the provider's message before closing the cursor. Any other exception
  is raised to the caller after the cursor is closed, with no warning. Without a failure
  the fetched frame is returned.
\<close>

theorem show_live_catches_programming_errors:
  "(first_failure sf w = Some (ProgrammingError msg) \<longrightarrow>
      snd (run_show_queries sf w) = Inr empty_frame \<and>
      (\<exists>evs. fst (run_show_queries sf w) =
         evs @ [Warning live_unavailable, Caption (''Snowflake error: '' @ msg), Cursor_close] \<and>
         (\<forall>e \<in> set evs. is_query e \<or> e = Fetch_pandas_all))) \<and>
   (first_failure sf w = Some (OtherError msg) \<longrightarrow>
      snd (run_show_queries sf w) = Inl (OtherError msg) \<and>
      (\<exists>evs. fst (run_show_queries sf w) = evs @ [Cursor_close] \<and>
         (\<forall>e \<in> set evs. is_query e \<or> e = Fetch_pandas_all))) \<and>
   (first_failure sf w = None \<longrightarrow>
      snd (run_show_queries sf w) = fetched sf \<and>
      (\<exists>df. fetched sf = Inr df) \<and>
      fst (run_show_queries sf w) = [Show_queries w, Result_scan, Fetch_pandas_all, Cursor_close])"
  by (auto simp: run_show_queries_def first_failure_def on_exception_def
      split: option.splits sum.splits)

theorem show_live_catches_programming_errors_witness:
  "first_failure sf_denied ''LOAD_WH'' = Some (ProgrammingError ''003001 (42501): Insufficient privileges'') \<and>
   snd (run_show_queries sf_denied ''LOAD_WH'') = Inr empty_frame \<and>
   first_failure sf_offline ''LOAD_WH'' = Some (OtherError ''250003: Failed to execute request'') \<and>
   snd (run_show_queries sf_offline ''LOAD_WH'') = Inl (OtherError ''250003: Failed to execute request'') \<and>
   first_failure sf_live ''LOAD_WH'' = None \<and>
   snd (run_show_queries sf_live ''LOAD_WH'') = Inr live_frame"
proof -
  have a: "first_failure sf_denied ''LOAD_WH'' = Some (ProgrammingError ''003001 (42501): Insufficient privileges'')"
    by (simp add: first_failure_def sf_denied_def)
  have b: "first_failure sf_offline ''LOAD_WH'' = Some (OtherError ''250003: Failed to execute request'')"
    by (simp add: first_failure_def sf_offline_def)
  have c: "first_failure sf_live ''LOAD_WH'' = None" "fetched sf_live = Inr live_frame"
    by (simp_all add: first_failure_def sf_live_def)
  note t = show_live_catches_programming_errors
  from t [of sf_denied "''LOAD_WH''"] a
  have 1: "snd (run_show_queries sf_denied ''LOAD_WH'') = Inr empty_frame" by blast
  from t [of sf_offline "''LOAD_WH''"] b
  have 2: "snd (run_show_queries sf_offline ''LOAD_WH'') = Inl (OtherError ''250003: Failed to execute request'')"
    by blast
  from t [of sf_live "''LOAD_WH''"] c
  have 3: "snd (run_show_queries sf_live ''LOAD_WH'') = Inr live_frame" by simp
  from a b c 1 2 3 show ?thesis by blast
qed

subsection \<open>The view\<close>

lemma single_guard:
  "(warehouses s \<noteq> [] \<and> ''ALL'' \<notin> set (warehouses s) \<and> length (warehouses s) = 1) \<longleftrightarrow>
   (\<exists>w. single_warehouse s w)"
  by (cases "warehouses s") (auto simp: single_warehouse_def)

lemma running_view_other:
  "\<not> (\<exists>w. single_warehouse s w) \<Longrightarrow> running_view sf s = ([Info select_single], None)"
proof -
  assume "\<not> (\<exists>w. single_warehouse s w)"
  then have g: "\<not> (warehouses s \<noteq> [] \<and> ''ALL'' \<notin> set (warehouses s) \<and> length (warehouses s) = 1)"
    using single_guard [of s] by blast
  show ?thesis unfolding running_view_def Let_def by (simp only: g if_False)
qed

lemma running_view_single:
  assumes "single_warehouse s w"
  shows "running_view sf s =
     (case run_show_queries sf w of
        (evs, Inl e) \<Rightarrow> (evs, Some e)
      | (evs, Inr df) \<Rightarrow>
          if df_empty (running_rows df) then
            (case fallback_history sf w (fallback_window s) of
               Inl e \<Rightarrow> (evs @ [Info fallback_notice, Fallback_query w (fallback_window s)], Some e)
             | Inr fallback_df \<Rightarrow>
                 (evs @ [Info fallback_notice, Fallback_query w (fallback_window s),
                         Dataframe fallback_df], None))
          else (evs @ [Dataframe (running_rows df)], None))"
proof -
  from assms have ws: "warehouses s = [w]" and w: "w \<noteq> ''ALL''"
    by (simp_all add: single_warehouse_def)
  show ?thesis
    unfolding running_view_def Let_def running_rows_def ws using w
    by (simp split: prod.splits sum.splits)
qed

lemma df_empty_empty_frame: "df_empty (running_rows empty_frame)"
  by (simp add: df_empty_def running_rows_def empty_frame_def)


text \<open>
  Claim C8 as stated fails when the privileged path errors with an exception that
  \<^verbatim>\<open>run_show_queries\<close> does not catch: with one concrete warehouse selected and the
  connection lost, the view ends with that exception and issues no fallback query.
\<close>

theorem running_view_counterexample:
  "single_warehouse sel_one ''LOAD_WH'' \<and>
   first_failure sf_offline ''LOAD_WH'' = Some (OtherError ''250003: Failed to execute request'') \<and>
   running_view sf_offline sel_one =
     ([Show_queries ''LOAD_WH'', Cursor_close], Some (OtherError ''250003: Failed to execute request''))"
  by (simp add: single_warehouse_def sel_one_def first_failure_def running_view_def
      run_show_queries_def on_exception_def sf_offline_def)


text \<open>
  Claim C8, amended. The view sends \<^verbatim>\<open>SHOW QUERIES\<close> exactly when one concrete
  warehouse is selected. With none, several or \<^verbatim>\<open>ALL\<close> selected it writes the notice to
  select a single warehouse and issues no statement. With one warehouse selected it writes
  a notice and issues the historical query over the selected window when the privileged
  path failed with a \<^verbatim>\<open>ProgrammingError\<close> or its answer is empty once filtered to
  the RUNNING rows (the filter applies when the answer has an \<^verbatim>\<open>execution_status\<close>
  column); the view then ends normally with the fallback's rows, unless the fallback
  itself raises. It shows the privileged answer when that is not empty, and any other
  exception of the privileged path ends the view with no fallback.
\<close>

theorem running_view_gate_and_fallback:
  "((\<exists>w. Show_queries w \<in> set (fst (running_view sf s))) \<longleftrightarrow> (\<exists>w. single_warehouse s w)) \<and>
   (\<not> (\<exists>w. single_warehouse s w) \<longrightarrow> running_view sf s = ([Info select_single], None)) \<and>
   (\<forall>w. single_warehouse s w \<longrightarrow>
      (\<exists>evs. fst (running_view sf s) = fst (run_show_queries sf w) @ evs \<and>
         ((\<exists>msg. first_failure sf w = Some (ProgrammingError msg)) \<or>
          (\<exists>df. first_failure sf w = None \<and> fetched sf = Inr df \<and> df_empty (running_rows df)) \<longrightarrow>
            evs = Info fallback_notice # Fallback_query w (fallback_window s) #
                    (case fallback_history sf w (fallback_window s) of
                       Inl e \<Rightarrow> [] | Inr fallback_df \<Rightarrow> [Dataframe fallback_df]) \<and>
            snd (running_view sf s) =
              (case fallback_history sf w (fallback_window s) of
                 Inl e \<Rightarrow> Some e | Inr fallback_df \<Rightarrow> None)) \<and>
         (\<forall>df. first_failure sf w = None \<and> fetched sf = Inr df \<and> \<not> df_empty (running_rows df) \<longrightarrow>
            evs = [Dataframe (running_rows df)] \<and> snd (running_view sf s) = None) \<and>
         (\<forall>msg. first_failure sf w = Some (OtherError msg) \<longrightarrow>
            evs = [] \<and> snd (running_view sf s) = Some (OtherError msg))))"
proof (intro conjI allI impI)
  show "(\<exists>w. Show_queries w \<in> set (fst (running_view sf s))) \<longleftrightarrow> (\<exists>w. single_warehouse s w)"
  proof (cases "\<exists>w. single_warehouse s w")
    case True
    then obtain w where w: "single_warehouse s w" ..
    obtain evs where "fst (run_show_queries sf w) = Show_queries w # evs"
      using show_queries_first by blast
    then have "Show_queries w \<in> set (fst (running_view sf s))"
      by (auto simp: running_view_single [OF w] split: prod.splits sum.splits)
    with True show ?thesis by blast
  next
    case False
    then show ?thesis by (simp add: running_view_other)
  qed
next
  assume "\<not> (\<exists>w. single_warehouse s w)"
  then show "running_view sf s = ([Info select_single], None)" by (rule running_view_other)
next
  fix w assume w: "single_warehouse s w"
  note v = running_view_single [OF w, of sf]
  show "\<exists>evs. fst (running_view sf s) = fst (run_show_queries sf w) @ evs \<and>
         ((\<exists>msg. first_failure sf w = Some (ProgrammingError msg)) \<or>
          (\<exists>df. first_failure sf w = None \<and> fetched sf = Inr df \<and> df_empty (running_rows df)) \<longrightarrow>
            evs = Info fallback_notice # Fallback_query w (fallback_window s) #
                    (case fallback_history sf w (fallback_window s) of
                       Inl e \<Rightarrow> [] | Inr fallback_df \<Rightarrow> [Dataframe fallback_df]) \<and>
            snd (running_view sf s) =
              (case fallback_history sf w (fallback_window s) of
                 Inl e \<Rightarrow> Some e | Inr fallback_df \<Rightarrow> None)) \<and>
         (\<forall>df. first_failure sf w = None \<and> fetched sf = Inr df \<and> \<not> df_empty (running_rows df) \<longrightarrow>
            evs = [Dataframe (running_rows df)] \<and> snd (running_view sf s) = None) \<and>
         (\<forall>msg. first_failure sf w = Some (OtherError msg) \<longrightarrow>
            evs = [] \<and> snd (running_view sf s) = Some (OtherError msg))"
  proof (cases "first_failure sf w")
    case None
    then obtain df where df: "fetched sf = Inr df"
      by (auto simp: first_failure_def split: option.splits sum.splits)
    with None have r: "run_show_queries sf w =
        ([Show_queries w, Result_scan, Fetch_pandas_all, Cursor_close], Inr df)"
      by (simp add: run_show_queries_cases)
    show ?thesis
    proof (cases "df_empty (running_rows df)")
      case True
      with None df r show ?thesis
        unfolding v by (cases "fallback_history sf w (fallback_window s)") simp_all
    next
      case False
      with None df r show ?thesis unfolding v by simp
    qed
  next
    case (Some e)
    show ?thesis
    proof (cases e)
      case (ProgrammingError msg)
      with Some have r: "snd (run_show_queries sf w) = Inr empty_frame"
        by (simp add: run_show_queries_cases on_exception_def)
      then obtain evs0 where r': "run_show_queries sf w = (evs0, Inr empty_frame)"
        by (cases "run_show_queries sf w") simp
      with Some ProgrammingError show ?thesis
        unfolding v
        by (cases "fallback_history sf w (fallback_window s)")
           (simp_all add: df_empty_empty_frame)
    next
      case (OtherError msg)
      with Some have "snd (run_show_queries sf w) = Inl (OtherError msg)"
        by (simp add: run_show_queries_cases on_exception_def)
      then obtain evs0 where "run_show_queries sf w = (evs0, Inl (OtherError msg))"
        by (cases "run_show_queries sf w") simp
      with Some OtherError show ?thesis unfolding v by simp
    qed
  qed
qed

theorem running_view_gate_and_fallback_witness:
  "single_warehouse sel_one ''LOAD_WH'' \<and>
   first_failure sf_denied ''LOAD_WH'' =
     Some (ProgrammingError ''003001 (42501): Insufficient privileges'') \<and>
   running_view sf_denied sel_one =
     ([Show_queries ''LOAD_WH'', Warning live_unavailable,
       Caption ''Snowflake error: 003001 (42501): Insufficient privileges'', Cursor_close,
       Info fallback_notice, Fallback_query ''LOAD_WH'' 30, Dataframe history_frame], None) \<and>
   \<not> (\<exists>w. single_warehouse sel_all w) \<and>
   running_view sf_denied sel_all = ([Info select_single], None) \<and>
   \<not> (\<exists>w. single_warehouse sel_two w) \<and>
   running_view sf_live sel_two = ([Info select_single], None)"
proof -
  note t = running_view_gate_and_fallback
  have one: "single_warehouse sel_one ''LOAD_WH''"
    by (simp add: single_warehouse_def sel_one_def)
  have ff: "first_failure sf_denied ''LOAD_WH'' =
     Some (ProgrammingError ''003001 (42501): Insufficient privileges'')"
    by (simp add: first_failure_def sf_denied_def)
  have fb: "fallback_history sf_denied ''LOAD_WH'' 30 = Inr history_frame"
    "fallback_window sel_one = 30"
    by (simp_all add: sf_denied_def sel_one_def)
  have rs: "fst (run_show_queries sf_denied ''LOAD_WH'') =
     [Show_queries ''LOAD_WH'', Warning live_unavailable,
       Caption ''Snowflake error: 003001 (42501): Insufficient privileges'', Cursor_close]"
    by (simp add: run_show_queries_def on_exception_def sf_denied_def)
  from t [of sf_denied sel_one] one
  obtain evs where e: "fst (running_view sf_denied sel_one) = fst (run_show_queries sf_denied ''LOAD_WH'') @ evs"
    and f: "(\<exists>msg. first_failure sf_denied ''LOAD_WH'' = Some (ProgrammingError msg)) \<or>
          (\<exists>df. first_failure sf_denied ''LOAD_WH'' = None \<and> fetched sf_denied = Inr df \<and> df_empty (running_rows df)) \<longrightarrow>
            evs = Info fallback_notice # Fallback_query ''LOAD_WH'' (fallback_window sel_one) #
                    (case fallback_history sf_denied ''LOAD_WH'' (fallback_window sel_one) of
                       Inl e \<Rightarrow> [] | Inr fallback_df \<Rightarrow> [Dataframe fallback_df]) \<and>
            snd (running_view sf_denied sel_one) =
              (case fallback_history sf_denied ''LOAD_WH'' (fallback_window sel_one) of
                 Inl e \<Rightarrow> Some e | Inr fallback_df \<Rightarrow> None)"
    by blast
  from f ff have "evs = Info fallback_notice # Fallback_query ''LOAD_WH'' (fallback_window sel_one) #
                    (case fallback_history sf_denied ''LOAD_WH'' (fallback_window sel_one) of
                       Inl e \<Rightarrow> [] | Inr fallback_df \<Rightarrow> [Dataframe fallback_df])"
    and "snd (running_view sf_denied sel_one) =
              (case fallback_history sf_denied ''LOAD_WH'' (fallback_window sel_one) of
                 Inl e \<Rightarrow> Some e | Inr fallback_df \<Rightarrow> None)"
    by blast+
  then have "evs = [Info fallback_notice, Fallback_query ''LOAD_WH'' 30, Dataframe history_frame]"
    and s: "snd (running_view sf_denied sel_one) = None"
    by (simp_all add: fb)
  with e rs have "fst (running_view sf_denied sel_one) =
     [Show_queries ''LOAD_WH'', Warning live_unavailable,
       Caption ''Snowflake error: 003001 (42501): Insufficient privileges'', Cursor_close,
       Info fallback_notice, Fallback_query ''LOAD_WH'' 30, Dataframe history_frame]"
    by simp
  with s have 1: "running_view sf_denied sel_one =
     ([Show_queries ''LOAD_WH'', Warning live_unavailable,
       Caption ''Snowflake error: 003001 (42501): Insufficient privileges'', Cursor_close,
       Info fallback_notice, Fallback_query ''LOAD_WH'' 30, Dataframe history_frame], None)"
    by (simp add: prod_eq_iff)
  have all: "\<not> (\<exists>w. single_warehouse sel_all w)"
    by (simp add: single_warehouse_def sel_all_def)
  have two: "\<not> (\<exists>w. single_warehouse sel_two w)"
    by (simp add: single_warehouse_def sel_two_def)
  from t [of sf_denied sel_all] all
  have 2: "running_view sf_denied sel_all = ([Info select_single], None)" by blast
  from t [of sf_live sel_two] two
  have 3: "running_view sf_live sel_two = ([Info select_single], None)" by blast
  from one ff 1 all 2 two 3 show ?thesis by blast
qed

section \<open>Properties of the Top-10 views\<close>

text \<open>
  Every sort kind gives each Top-10 view at most ten rows of the frame, in descending
  order of the metric with missing metrics last, and some such view always exists. The
  order of rows with equal metric is not determined at this level: both orders of two
  tied rows meet the description, so whether ties keep retrieval order rests on the
  stability of the sort kind that pandas runs.
\<close>

lemma desc_nulls_last_total: "desc_nulls_last a b \<or> desc_nulls_last b a"
  by (cases a; cases b) auto

lemma desc_nulls_last_trans:
  "desc_nulls_last a b \<Longrightarrow> desc_nulls_last b c \<Longrightarrow> desc_nulls_last a c"
  by (cases a; cases b; cases c) auto

lemma sort_values_desc_exists: "\<exists>sorted_df. sort_values_desc metric df sorted_df"
proof -
  let ?ahead = "\<lambda>a b. desc_nulls_last (metric a) (metric b)"
  have "sorted_wrt ?ahead (order_by ?ahead df)"
    by (rule sorted_order_by) (use desc_nulls_last_total desc_nulls_last_trans in blast)+
  then have "sort_values_desc metric df (order_by ?ahead df)"
    by (simp add: sort_values_desc_def mset_order_by)
  then show ?thesis ..
qed

lemma top10_exists: "\<exists>view. top10 metric df view"
  using sort_values_desc_exists [of metric df] by (auto simp: top10_def)

lemma top10_bounded_sorted:
  assumes "top10 metric df view"
  shows "length view \<le> 10"
    and "sorted_wrt (\<lambda>a b. desc_nulls_last (metric a) (metric b)) view"
    and "set view \<subseteq> set df"
proof -
  from assms obtain sorted_df where s: "sort_values_desc metric df sorted_df"
    and v: "view = take 10 sorted_df"
    by (auto simp: top10_def)
  from v show "length view \<le> 10" by simp
  from s v show "sorted_wrt (\<lambda>a b. desc_nulls_last (metric a) (metric b)) view"
    by (simp add: sort_values_desc_def sorted_wrt_take_prefix)
  from s have "set sorted_df = set df"
    unfolding sort_values_desc_def by (metis set_mset_mset)
  with v show "set view \<subseteq> set df" using set_take_subset by fastforce
qed

lemma top10_ties_open:
  "metric a = metric b \<Longrightarrow> top10 metric [a, b] [a, b] \<and> top10 metric [a, b] [b, a]"
proof -
  assume e: "metric a = metric b"
  have r: "desc_nulls_last (metric b) (metric b)" by (cases "metric b") auto
  from e r have "sort_values_desc metric [a, b] [a, b]" "sort_values_desc metric [a, b] [b, a]"
    by (simp_all add: sort_values_desc_def)
  then have "top10 metric [a, b] (take 10 [a, b])" "top10 metric [a, b] (take 10 [b, a])"
    unfolding top10_def by blast+
  then show ?thesis by simp
qed

end
